theory Spec2Isabelle
  imports Complex_Main
begin

section \<open>Tower defense (Prototype Pattern/tower.py): data model\<close>

text \<open>
  The embedding follows \<^verbatim>\<open>tower.py\<close>. Python's unbounded \<^verbatim>\<open>int\<close> is \<^typ>\<open>int\<close>
  (\<^typ>\<open>nat\<close> for list indices and counters that start at 0 and only grow); Python's
  \<^verbatim>\<open>float\<close> is \<^typ>\<open>real\<close>, so \<^verbatim>\<open>math.sqrt\<close> is \<^const>\<open>sqrt\<close> and rounding of
  floating-point arithmetic is not modelled. Objects that the source reaches through
  references (the enemies hit by a tower, the selected tower) are list positions.
  The fields \<^verbatim>\<open>color\<close> and \<^verbatim>\<open>name\<close>, the screen and the clock only serve drawing and
  are left out.
\<close>

datatype error = IndexError | KeyError | ValueError | ZeroDivisionError

definition bind_err :: "error + 'a \<Rightarrow> ('a \<Rightarrow> error + 'b) \<Rightarrow> error + 'b" where
  "bind_err m f = (case m of Inl e \<Rightarrow> Inl e | Inr a \<Rightarrow> f a)"

text \<open>\<^verbatim>\<open>int(r)\<close> on a float truncates towards zero.\<close>

definition py_int :: "real \<Rightarrow> int" where
  "py_int r = (if 0 \<le> r then \<lfloor>r\<rfloor> else \<lceil>r\<rceil>)"

datatype game_state = GAME_STATE_PLAYING | GAME_STATE_GAME_OVER | GAME_STATE_VICTORY

datatype tower_class = BasicTower | SniperTower | BomberTower

text \<open>
  \<^verbatim>\<open>class Tower\<close>. \<open>tower_class\<close> is the Python class of the object (it selects the
  \<^verbatim>\<open>attack\<close> method); \<open>target\<close> is the position of the targeted enemy in the list that
  was passed to \<^verbatim>\<open>attack\<close>.
\<close>

record tower =
  tower_class :: tower_class
  tower_x :: int
  tower_y :: int
  radius :: int
  damage :: int
  cooldown :: int
  cooldown_counter :: int
  cost :: int
  level :: int
  target :: "nat option"

definition Tower :: "tower_class \<Rightarrow> int \<Rightarrow> int \<Rightarrow> int \<Rightarrow> int \<Rightarrow> int \<Rightarrow> int \<Rightarrow> tower" where
  "Tower c x y r d cd cst =
     \<lparr>tower_class = c, tower_x = x, tower_y = y, radius = r, damage = d, cooldown = cd,
      cooldown_counter = 0, cost = cst, level = 1, target = None\<rparr>"

definition new_BasicTower :: "int \<Rightarrow> int \<Rightarrow> tower" where
  "new_BasicTower x y = Tower BasicTower x y 100 10 30 50"

definition new_SniperTower :: "int \<Rightarrow> int \<Rightarrow> tower" where
  "new_SniperTower x y = Tower SniperTower x y 200 30 60 100"

definition new_BomberTower :: "int \<Rightarrow> int \<Rightarrow> tower" where
  "new_BomberTower x y = Tower BomberTower x y 80 15 45 75"

text \<open>\<^verbatim>\<open>Tower.upgrade\<close>: returns the upgrade cost and the mutated tower.\<close>

definition upgrade :: "tower \<Rightarrow> int \<times> tower" where
  "upgrade t =
     (let t1 = t\<lparr>level := level t + 1\<rparr>;
          t2 = t1\<lparr>damage := py_int (real_of_int (damage t1) * 1.5)\<rparr>;
          t3 = t2\<lparr>radius := radius t2 + 20\<rparr>;
          t4 = t3\<lparr>cooldown := max 10 (py_int (real_of_int (cooldown t3) * 0.8))\<rparr>
      in (cost t4 div 2, t4))"

definition can_attack :: "tower \<Rightarrow> bool" where
  "can_attack t = (if cooldown_counter t \<le> 0 then True else False)"

text \<open>
  \<^verbatim>\<open>class Enemy\<close>. The position is a pair of floats; the path is the list of integer
  waypoints the enemy was created with.
\<close>

record enemy =
  enemy_path :: "(int \<times> int) list"
  path_index :: nat
  enemy_x :: real
  enemy_y :: real
  speed :: real
  max_health :: int
  health :: int
  enemy_value :: int

text \<open>\<^verbatim>\<open>Enemy.__init__\<close> reads \<^verbatim>\<open>path[0]\<close>, which raises on an empty path.\<close>

definition Enemy :: "(int \<times> int) list \<Rightarrow> real \<Rightarrow> int \<Rightarrow> int \<Rightarrow> error + enemy" where
  "Enemy p s h v =
     (case p of
        [] \<Rightarrow> Inl IndexError
      | (x0, y0) # _ \<Rightarrow>
          Inr \<lparr>enemy_path = p, path_index = 0, enemy_x = real_of_int x0,
               enemy_y = real_of_int y0, speed = s, max_health = h, health = h,
               enemy_value = v\<rparr>)"

text \<open>
  \<^verbatim>\<open>Enemy.update\<close>: the flag says whether the end was reached. The float division
  \<^verbatim>\<open>dx / distance\<close> raises when the distance is 0 (only possible with a speed \<open>\<le> 0\<close>).
\<close>

definition enemy_update :: "enemy \<Rightarrow> error + (bool \<times> enemy)" where
  "enemy_update e =
     (if length (enemy_path e) \<le> path_index e + 1 then Inr (True, e)
      else
        let (target_x, target_y) = enemy_path e ! (path_index e + 1);
            dx = real_of_int target_x - enemy_x e;
            dy = real_of_int target_y - enemy_y e;
            distance = sqrt (dx ^ 2 + dy ^ 2)
        in if distance < speed e
           then Inr (False, e\<lparr>enemy_x := real_of_int target_x, enemy_y := real_of_int target_y,
                               path_index := path_index e + 1\<rparr>)
           else if distance = 0 then Inl ZeroDivisionError
           else Inr (False, e\<lparr>enemy_x := enemy_x e + (dx / distance) * speed e,
                               enemy_y := enemy_y e + (dy / distance) * speed e\<rparr>))"

definition is_alive :: "enemy \<Rightarrow> bool" where
  "is_alive e = (health e > 0)"

text \<open>The distance \<^verbatim>\<open>math.sqrt((self.x - enemy.x) ** 2 + (self.y - enemy.y) ** 2)\<close>.\<close>

definition tower_distance :: "tower \<Rightarrow> enemy \<Rightarrow> real" where
  "tower_distance t e =
     sqrt ((real_of_int (tower_x t) - enemy_x e) ^ 2 + (real_of_int (tower_y t) - enemy_y e) ^ 2)"

text \<open>
  \<^verbatim>\<open>Tower.find_target\<close>: the loop carries \<^verbatim>\<open>closest_enemy\<close> (a list position) and
  \<^verbatim>\<open>min_distance\<close>, where \<open>None\<close> stands for \<^verbatim>\<open>float('inf')\<close>.
\<close>

fun find_target_loop ::
  "tower \<Rightarrow> enemy list \<Rightarrow> nat \<Rightarrow> nat option \<Rightarrow> real option \<Rightarrow> nat option" where
  "find_target_loop t [] i closest_enemy min_distance = closest_enemy"
| "find_target_loop t (e # es) i closest_enemy min_distance =
     (let distance = tower_distance t e in
      if distance \<le> real_of_int (radius t)
         \<and> (case min_distance of None \<Rightarrow> True | Some m \<Rightarrow> distance < m)
      then find_target_loop t es (Suc i) (Some i) (Some distance)
      else find_target_loop t es (Suc i) closest_enemy min_distance)"

definition find_target :: "tower \<Rightarrow> enemy list \<Rightarrow> nat option" where
  "find_target t enemies = find_target_loop t enemies 0 None None"

definition hit :: "int \<Rightarrow> enemy \<Rightarrow> enemy" where
  "hit d e = e\<lparr>health := health e - d\<rparr>"

text \<open>\<^verbatim>\<open>Tower.attack\<close>: the damage dealt, the mutated tower and the mutated enemies.\<close>

definition tower_attack :: "tower \<Rightarrow> enemy list \<Rightarrow> int \<times> tower \<times> enemy list" where
  "tower_attack t enemies =
     (if \<not> can_attack t
      then (0, t\<lparr>cooldown_counter := cooldown_counter t - 1\<rparr>, enemies)
      else
        let t1 = t\<lparr>target := find_target t enemies\<rparr> in
        case target t1 of
          Some i \<Rightarrow> (damage t1, t1\<lparr>cooldown_counter := cooldown t1\<rparr>,
                     enemies[i := hit (damage t1) (enemies ! i)])
        | None \<Rightarrow> (0, t1, enemies))"

text \<open>
  \<^verbatim>\<open>BomberTower.attack\<close>: \<^verbatim>\<open>enemies_in_range\<close> is the list of positions of the enemies
  within the tower's radius; the second loop hits each of them.
\<close>

definition enemies_in_range :: "tower \<Rightarrow> enemy list \<Rightarrow> nat list" where
  "enemies_in_range t enemies =
     filter (\<lambda>i. tower_distance t (enemies ! i) \<le> real_of_int (radius t)) [0..<length enemies]"

fun bomb_loop :: "tower \<Rightarrow> nat list \<Rightarrow> int \<Rightarrow> enemy list \<Rightarrow> int \<times> enemy list" where
  "bomb_loop t [] total_damage enemies = (total_damage, enemies)"
| "bomb_loop t (i # is) total_damage enemies =
     bomb_loop t is (total_damage + damage t) (enemies[i := hit (damage t) (enemies ! i)])"

definition bomber_attack :: "tower \<Rightarrow> enemy list \<Rightarrow> int \<times> tower \<times> enemy list" where
  "bomber_attack t enemies =
     (if \<not> can_attack t
      then (0, t\<lparr>cooldown_counter := cooldown_counter t - 1\<rparr>, enemies)
      else
        let in_range = enemies_in_range t enemies in
        if in_range \<noteq> []
        then (let (total_damage, enemies') = bomb_loop t in_range 0 enemies
              in (total_damage, t\<lparr>cooldown_counter := cooldown t\<rparr>, enemies'))
        else (0, t, enemies))"

text \<open>Method dispatch on the class of the tower.\<close>

definition attack :: "tower \<Rightarrow> enemy list \<Rightarrow> int \<times> tower \<times> enemy list" where
  "attack t enemies =
     (case tower_class t of
        BomberTower \<Rightarrow> bomber_attack t enemies
      | _ \<Rightarrow> tower_attack t enemies)"

text \<open>\<^verbatim>\<open>EnemyFactory.create_enemy\<close>.\<close>

definition create_enemy :: "string \<Rightarrow> (int \<times> int) list \<Rightarrow> error + enemy" where
  "create_enemy enemy_type p =
     (if enemy_type = ''basic'' then Enemy p 2.0 50 10
      else if enemy_type = ''fast'' then Enemy p 3.5 30 15
      else if enemy_type = ''tank'' then Enemy p 1.0 150 25
      else Inl ValueError)"

text \<open>\<^verbatim>\<open>class WaveManager\<close>.\<close>

record wave_manager =
  current_wave :: nat
  waves :: "string list list"
  spawn_timer :: nat
  enemy_index :: nat
  active :: bool
  spawn_delay :: nat

definition WaveManager :: wave_manager where
  "WaveManager =
     \<lparr>current_wave = 0, waves = [], spawn_timer = 0, enemy_index = 0, active = False,
      spawn_delay = 60\<rparr>"

definition add_wave :: "wave_manager \<Rightarrow> string list \<Rightarrow> wave_manager" where
  "add_wave wm enemies = wm\<lparr>waves := waves wm @ [enemies]\<rparr>"

definition wm_start_wave :: "wave_manager \<Rightarrow> bool \<times> wave_manager" where
  "wm_start_wave wm =
     (if current_wave wm < length (waves wm)
      then (True, wm\<lparr>active := True, enemy_index := 0, spawn_timer := 0\<rparr>)
      else (False, wm))"

text \<open>
  \<^verbatim>\<open>WaveManager.update\<close>: the new state and the spawned enemy, if any.
  \<^verbatim>\<open>self.waves[self.current_wave]\<close> raises when the index is out of range, and
  \<^verbatim>\<open>create_enemy\<close> raises after the cursor was advanced.
\<close>

definition wm_update :: "wave_manager \<Rightarrow> (int \<times> int) list \<Rightarrow> error + (wave_manager \<times> enemy option)" where
  "wm_update wm p =
     (if \<not> active wm then Inr (wm, None)
      else
        let wm1 = wm\<lparr>spawn_timer := spawn_timer wm + 1\<rparr> in
        if spawn_timer wm1 \<ge> spawn_delay wm1
        then
          (let wm2 = wm1\<lparr>spawn_timer := 0\<rparr> in
           if length (waves wm2) \<le> current_wave wm2 then Inl IndexError
           else if enemy_index wm2 < length (waves wm2 ! current_wave wm2)
           then
             (let enemy_type = waves wm2 ! current_wave wm2 ! enemy_index wm2;
                  wm3 = wm2\<lparr>enemy_index := enemy_index wm2 + 1\<rparr>
              in bind_err (create_enemy enemy_type p) (\<lambda>e. Inr (wm3, Some e)))
           else if enemy_index wm2 \<ge> length (waves wm2 ! current_wave wm2)
           then Inr (wm2\<lparr>active := False, current_wave := current_wave wm2 + 1\<rparr>, None)
           else Inr (wm2, None))
        else Inr (wm1, None))"

definition is_finished :: "wave_manager \<Rightarrow> bool" where
  "is_finished wm = (current_wave wm \<ge> length (waves wm) \<and> \<not> active wm)"

section \<open>The game\<close>

definition SCREEN_WIDTH :: int where "SCREEN_WIDTH = 800"
definition SCREEN_HEIGHT :: int where "SCREEN_HEIGHT = 600"
definition GRID_SIZE :: int where "GRID_SIZE = 40"

text \<open>
  \<^verbatim>\<open>class TowerDefenseGame\<close>. \<open>tower_prototypes\<close> is the dictionary in insertion order;
  \<open>selected_tower\<close> is the position in \<open>towers\<close> of the tower the source holds a reference
  to (it is taken from the list by \<^verbatim>\<open>select_tower\<close> and cleared when the tower is sold);
  \<open>dragging_tower\<close> is an object of its own, a clone.
\<close>

record game =
  money :: int
  lives :: int
  score :: int
  game_state :: game_state
  path :: "(int \<times> int) list"
  wave_manager :: wave_manager
  towers :: "tower list"
  enemies :: "enemy list"
  tower_prototypes :: "(string \<times> tower) list"
  selected_tower_type :: "string option"
  dragging_tower :: "tower option"
  selected_tower :: "nat option"
  grid_visible :: bool

definition setup_waves :: "wave_manager \<Rightarrow> wave_manager" where
  "setup_waves wm =
     (let wm1 = add_wave wm (replicate 10 ''basic'');
          wave2 = replicate 8 ''basic'' @ replicate 7 ''fast'';
          wm2 = add_wave wm1 wave2;
          wave3 = replicate 10 ''basic'' @ replicate 7 ''fast'' @ replicate 3 ''tank'';
          wm3 = add_wave wm2 wave3;
          wave4 = replicate 10 ''basic'' @ replicate 10 ''fast'' @ replicate 5 ''tank'';
          wm4 = add_wave wm3 wave4;
          wave5 = replicate 10 ''basic'' @ replicate 12 ''fast'' @ replicate 8 ''tank''
      in add_wave wm4 wave5)"

definition TowerDefenseGame :: game where
  "TowerDefenseGame =
     \<lparr>money = 200, lives = 20, score = 0, game_state = GAME_STATE_PLAYING,
      path = [(0, 300), (200, 300), (200, 150), (400, 150),
              (400, 450), (600, 450), (600, 300), (800, 300)],
      wave_manager = setup_waves WaveManager,
      towers = [], enemies = [],
      tower_prototypes = [(''basic'', new_BasicTower 0 0), (''sniper'', new_SniperTower 0 0),
                          (''bomber'', new_BomberTower 0 0)],
      selected_tower_type = None, dragging_tower = None, selected_tower = None,
      grid_visible = True\<rparr>"

definition start_wave :: "game \<Rightarrow> bool \<times> game" where
  "start_wave g =
     (if \<not> active (wave_manager g)
      then (let (r, wm) = wm_start_wave (wave_manager g) in (r, g\<lparr>wave_manager := wm\<rparr>))
      else (False, g))"

definition get_grid_position :: "int \<times> int \<Rightarrow> int \<times> int" where
  "get_grid_position pos =
     (let (x, y) = pos;
          grid_x = (x div GRID_SIZE) * GRID_SIZE + GRID_SIZE div 2;
          grid_y = (y div GRID_SIZE) * GRID_SIZE + GRID_SIZE div 2
      in (grid_x, grid_y))"

text \<open>The distance between two integer points, as each loop of the source computes it.\<close>

definition point_distance :: "int \<Rightarrow> int \<Rightarrow> int \<Rightarrow> int \<Rightarrow> real" where
  "point_distance x y px py = sqrt (real_of_int ((x - px) ^ 2 + (y - py) ^ 2))"

text \<open>\<^verbatim>\<open>is_position_valid\<close>: each loop returns \<^verbatim>\<open>False\<close> at the first point that is too close.\<close>

definition is_position_valid :: "game \<Rightarrow> int \<times> int \<Rightarrow> bool" where
  "is_position_valid g pos =
     (let (x, y) = pos in
      if x < 0 \<or> x \<ge> SCREEN_WIDTH \<or> y < 0 \<or> y \<ge> SCREEN_HEIGHT then False
      else if list_ex (\<lambda>(path_x, path_y). point_distance x y path_x path_y < 30) (path g)
      then False
      else if list_ex (\<lambda>t. point_distance x y (tower_x t) (tower_y t) < 40) (towers g)
      then False
      else True)"

text \<open>\<^verbatim>\<open>clone\<close> is a deep copy: the same value, a new object.\<close>

definition clone :: "tower \<Rightarrow> tower" where
  "clone t = t"

definition select_tower_type :: "game \<Rightarrow> string \<Rightarrow> game" where
  "select_tower_type g tower_type =
     (case map_of (tower_prototypes g) tower_type of
        Some prototype \<Rightarrow>
          g\<lparr>selected_tower_type := Some tower_type, selected_tower := None,
            dragging_tower := Some (clone prototype)\<rparr>
      | None \<Rightarrow> g\<lparr>selected_tower_type := None, dragging_tower := None\<rparr>)"

text \<open>Truth value of \<^verbatim>\<open>self.selected_tower_type\<close>: \<^verbatim>\<open>None\<close> and the empty string are false.\<close>

definition truthy_type :: "string option \<Rightarrow> bool" where
  "truthy_type s = (case s of None \<Rightarrow> False | Some n \<Rightarrow> n \<noteq> [])"

text \<open>
  \<^verbatim>\<open>place_tower\<close>. The dictionary lookup raises \<^verbatim>\<open>KeyError\<close> for an unknown type.
\<close>

definition place_tower :: "game \<Rightarrow> int \<times> int \<Rightarrow> error + (bool \<times> game)" where
  "place_tower g pos =
     (case selected_tower_type g of
        None \<Rightarrow> Inr (False, g)
      | Some tower_type \<Rightarrow>
          if tower_type = [] \<or> dragging_tower g = None then Inr (False, g)
          else
            let grid_pos = get_grid_position pos in
            if \<not> is_position_valid g grid_pos then Inr (False, g)
            else
              case map_of (tower_prototypes g) tower_type of
                None \<Rightarrow> Inl KeyError
              | Some prototype \<Rightarrow>
                  if money g < cost prototype then Inr (False, g)
                  else
                    let new_tower = (clone prototype)\<lparr>tower_x := fst grid_pos,
                                                        tower_y := snd grid_pos\<rparr>
                    in Inr (True, g\<lparr>towers := towers g @ [new_tower],
                                    money := money g - cost new_tower\<rparr>))"

text \<open>\<^verbatim>\<open>select_tower\<close>: the first tower closer than 20 to the position.\<close>

fun select_tower_loop :: "int \<times> int \<Rightarrow> tower list \<Rightarrow> nat \<Rightarrow> nat option" where
  "select_tower_loop pos [] i = None"
| "select_tower_loop pos (t # ts) i =
     (if point_distance (fst pos) (snd pos) (tower_x t) (tower_y t) < 20 then Some i
      else select_tower_loop pos ts (Suc i))"

definition select_tower :: "game \<Rightarrow> int \<times> int \<Rightarrow> bool \<times> game" where
  "select_tower g pos =
     (case select_tower_loop pos (towers g) 0 of
        Some i \<Rightarrow>
          (True, g\<lparr>selected_tower := Some i, selected_tower_type := None,
                   dragging_tower := None\<rparr>)
      | None \<Rightarrow> (False, g\<lparr>selected_tower := None\<rparr>))"

definition upgrade_selected_tower :: "game \<Rightarrow> bool \<times> game" where
  "upgrade_selected_tower g =
     (case selected_tower g of
        None \<Rightarrow> (False, g)
      | Some i \<Rightarrow>
          let upgrade_cost = cost (towers g ! i) div 2 in
          if money g \<ge> upgrade_cost
          then (True, g\<lparr>money := money g - upgrade_cost,
                         towers := (towers g)[i := snd (upgrade (towers g ! i))]\<rparr>)
          else (False, g))"

text \<open>
  \<^verbatim>\<open>sell_selected_tower\<close>. \<^verbatim>\<open>list.remove\<close> compares by identity (the class defines no
  \<^verbatim>\<open>__eq__\<close>) and raises \<^verbatim>\<open>ValueError\<close> when the object is not in the list.
\<close>

definition sell_selected_tower :: "game \<Rightarrow> error + (bool \<times> game)" where
  "sell_selected_tower g =
     (case selected_tower g of
        None \<Rightarrow> Inr (False, g)
      | Some i \<Rightarrow>
          let sell_value = py_int (real_of_int (cost (towers g ! i)) * 0.7);
              g1 = g\<lparr>money := money g + sell_value\<rparr>
          in if i < length (towers g1)
             then Inr (True, g1\<lparr>towers := take i (towers g1) @ drop (Suc i) (towers g1),
                                 selected_tower := None\<rparr>)
             else Inl ValueError)"

text \<open>
  The input events \<^verbatim>\<open>process_events\<close> reacts to; every other key, mouse button or
  event type is \<open>K_OTHER\<close>, another button number or \<open>OTHER_EVENT\<close>.
\<close>

datatype key = K_ESCAPE | K_g | K_n | K_u | K_s | K_1 | K_2 | K_3 | K_OTHER

datatype event = QUIT | KEYDOWN key | MOUSEBUTTONDOWN nat | OTHER_EVENT

definition number_key :: "game \<Rightarrow> nat \<Rightarrow> game" where
  "number_key g index =
     (let tower_types = map fst (tower_prototypes g) in
      if index < length tower_types then select_tower_type g (tower_types ! index) else g)"

definition handle_event :: "int \<times> int \<Rightarrow> event \<Rightarrow> game \<Rightarrow> error + game" where
  "handle_event mouse_pos ev g =
     (case ev of
        KEYDOWN K_ESCAPE \<Rightarrow>
          Inr (g\<lparr>selected_tower_type := None, selected_tower := None, dragging_tower := None\<rparr>)
      | KEYDOWN K_g \<Rightarrow> Inr (g\<lparr>grid_visible := \<not> grid_visible g\<rparr>)
      | KEYDOWN K_n \<Rightarrow> Inr (snd (start_wave g))
      | KEYDOWN K_u \<Rightarrow> Inr (snd (upgrade_selected_tower g))
      | KEYDOWN K_s \<Rightarrow> bind_err (sell_selected_tower g) (\<lambda>r. Inr (snd r))
      | KEYDOWN K_1 \<Rightarrow> Inr (number_key g 0)
      | KEYDOWN K_2 \<Rightarrow> Inr (number_key g 1)
      | KEYDOWN K_3 \<Rightarrow> Inr (number_key g 2)
      | MOUSEBUTTONDOWN button \<Rightarrow>
          if button = 1
          then (if truthy_type (selected_tower_type g)
                then bind_err (place_tower g mouse_pos) (\<lambda>r. Inr (snd r))
                else Inr (snd (select_tower g mouse_pos)))
          else Inr g
      | _ \<Rightarrow> Inr g)"

text \<open>
  \<^verbatim>\<open>process_events\<close>: \<^verbatim>\<open>QUIT\<close> returns \<^verbatim>\<open>False\<close> at once; after the last event the
  dragged tower follows the mouse.
\<close>

fun process_events :: "int \<times> int \<Rightarrow> event list \<Rightarrow> game \<Rightarrow> error + (bool \<times> game)" where
  "process_events mouse_pos [] g =
     (case dragging_tower g of
        Some d \<Rightarrow>
          (let grid_pos = get_grid_position mouse_pos
           in Inr (True, g\<lparr>dragging_tower :=
                 Some (d\<lparr>tower_x := fst grid_pos, tower_y := snd grid_pos\<rparr>)\<rparr>))
      | None \<Rightarrow> Inr (True, g))"
| "process_events mouse_pos (ev # evs) g =
     (if ev = QUIT then Inr (False, g)
      else case handle_event mouse_pos ev g of
             Inl err \<Rightarrow> Inl err
           | Inr g' \<Rightarrow> process_events mouse_pos evs g')"

text \<open>
  The first loop of \<^verbatim>\<open>update\<close>. Each enemy of the list is moved and then resolved: the
  loop carries lives (\<open>lvs\<close>), money (\<open>mny\<close>), score (\<open>scr\<close>) and the enemies seen so far, each with the mark that
  it was appended to \<^verbatim>\<open>enemies_to_remove\<close>.
\<close>

fun update_enemies ::
  "enemy list \<Rightarrow> int \<times> int \<times> int \<times> (enemy \<times> bool) list
     \<Rightarrow> error + (int \<times> int \<times> int \<times> (enemy \<times> bool) list)" where
  "update_enemies [] st = Inr st"
| "update_enemies (e # es) (lvs, mny, scr, seen) =
     (case enemy_update e of
        Inl err \<Rightarrow> Inl err
      | Inr (reached_end, e') \<Rightarrow>
          if reached_end
          then update_enemies es (lvs - 1, mny, scr, seen @ [(e', True)])
          else if \<not> is_alive e'
          then update_enemies es (lvs, mny + enemy_value e', scr + enemy_value e',
                                  seen @ [(e', True)])
          else update_enemies es (lvs, mny, scr, seen @ [(e', False)]))"

text \<open>
  The second loop removes the marked enemies. They are objects of \<^verbatim>\<open>self.enemies\<close>, each
  there once, and \<^verbatim>\<open>in\<close> and \<^verbatim>\<open>remove\<close> compare by identity, so the unmarked ones stay,
  in order.
\<close>

definition remove_marked :: "(enemy \<times> bool) list \<Rightarrow> enemy list" where
  "remove_marked seen = map fst (filter (\<lambda>(e, marked). \<not> marked) seen)"

text \<open>The third loop: every tower attacks the remaining enemies, one tower after another.\<close>

fun update_towers :: "tower list \<Rightarrow> enemy list \<Rightarrow> tower list \<times> enemy list" where
  "update_towers [] es = ([], es)"
| "update_towers (t # ts) es =
     (let (d, t', es') = attack t es;
          (ts', es'') = update_towers ts es'
      in (t' # ts', es''))"

definition check_state :: "game \<Rightarrow> game" where
  "check_state g =
     (let g1 = (if lives g \<le> 0 then g\<lparr>game_state := GAME_STATE_GAME_OVER\<rparr> else g)
      in if is_finished (wave_manager g1) \<and> enemies g1 = []
         then g1\<lparr>game_state := GAME_STATE_VICTORY\<rparr> else g1)"

text \<open>The enemies the first loop runs over: those of the game and the one just spawned.\<close>

definition spawn :: "game \<Rightarrow> enemy option \<Rightarrow> enemy list" where
  "spawn g new_enemy = (case new_enemy of Some e \<Rightarrow> enemies g @ [e] | None \<Rightarrow> enemies g)"

text \<open>\<^verbatim>\<open>TowerDefenseGame.update\<close>.\<close>

definition update :: "game \<Rightarrow> error + game" where
  "update g =
     bind_err (wm_update (wave_manager g) (path g)) (\<lambda>(wm, new_enemy).
       let g1 = g\<lparr>wave_manager := wm, enemies := spawn g new_enemy\<rparr> in
       bind_err (update_enemies (enemies g1) (lives g1, money g1, score g1, []))
         (\<lambda>(lives', money', score', seen).
            let g2 = g1\<lparr>lives := lives', money := money', score := score',
                        enemies := remove_marked seen\<rparr>;
                (ts, es) = update_towers (towers g2) (enemies g2);
                g3 = g2\<lparr>towers := ts, enemies := es\<rparr>
            in Inr (check_state g3)))"

text \<open>
  One iteration of the loop of \<^verbatim>\<open>run\<close>: the events, then \<^verbatim>\<open>update\<close> if the game is
  being played. \<open>tick\<close> is the second half alone.
\<close>

definition tick :: "game \<Rightarrow> error + game" where
  "tick g = (if game_state g = GAME_STATE_PLAYING then update g else Inr g)"

definition run_step :: "int \<times> int \<Rightarrow> event list \<Rightarrow> game \<Rightarrow> error + (bool \<times> game)" where
  "run_step mouse_pos evs g =
     bind_err (process_events mouse_pos evs g) (\<lambda>(running, g1).
       bind_err (tick g1) (\<lambda>g2. Inr (running, g2)))"

section \<open>Vocabulary of the statements\<close>

text \<open>
  \<open>n\<close> successive calls of \<^verbatim>\<open>WaveManager.update\<close>, the spawned enemies dropped.
\<close>

fun wm_updates :: "nat \<Rightarrow> wave_manager \<Rightarrow> (int \<times> int) list \<Rightarrow> error + wave_manager" where
  "wm_updates 0 wm p = Inr wm"
| "wm_updates (Suc n) wm p =
     (case wm_update wm p of Inl err \<Rightarrow> Inl err | Inr (wm', new_enemy) \<Rightarrow> wm_updates n wm' p)"

text \<open>
  Vocabulary for the first loop of \<^verbatim>\<open>update\<close>, about an enemy as the tick finds it:
  \<open>at_end\<close> is the test \<^verbatim>\<open>Enemy.update\<close> starts with; \<open>exits\<close> are the enemies resolved
  as having reached the end, \<open>kills\<close> those resolved as killed, \<open>bounty\<close> the money the
  kills bring, and \<open>survivors\<close> the moved enemies that stay in the list.
\<close>

definition at_end :: "enemy \<Rightarrow> bool" where
  "at_end e = (length (enemy_path e) \<le> path_index e + 1)"

definition exits :: "enemy list \<Rightarrow> enemy list" where
  "exits es = filter at_end es"

definition kills :: "enemy list \<Rightarrow> enemy list" where
  "kills es = filter (\<lambda>e. \<not> at_end e \<and> health e \<le> 0) es"

definition bounty :: "enemy list \<Rightarrow> int" where
  "bounty es = sum_list (map enemy_value (kills es))"

definition moved :: "enemy \<Rightarrow> enemy" where
  "moved e = (case enemy_update e of Inr (r, e') \<Rightarrow> e' | Inl err \<Rightarrow> e)"

definition survivors :: "enemy list \<Rightarrow> enemy list" where
  "survivors es = map moved (filter (\<lambda>e. \<not> at_end e \<and> 0 < health e) es)"

text \<open>
  The states the game can be in between two iterations of the loop of \<^verbatim>\<open>run\<close>: the new
  game, and every state an iteration leads to, for any mouse position and any events.
\<close>

inductive reachable :: "game \<Rightarrow> bool" where
  start: "reachable TowerDefenseGame"
| step: "reachable g \<Longrightarrow> run_step mouse_pos evs g = Inr (running, g') \<Longrightarrow> reachable g'"

text \<open>
  What holds in every such state: the money, the cost of every tower and prototype and the
  value of every enemy are not negative, and the selected tower is a tower of the list.
\<close>

fun selection_ok :: "nat option \<Rightarrow> nat \<Rightarrow> bool" where
  "selection_ok None n = True"
| "selection_ok (Some i) n = (i < n)"

definition sound :: "game \<Rightarrow> bool" where
  "sound g =
     (0 \<le> money g
      \<and> list_all (\<lambda>c. 0 \<le> c) (map cost (towers g))
      \<and> list_all (\<lambda>v. 0 \<le> v) (map enemy_value (enemies g))
      \<and> list_all (\<lambda>c. 0 \<le> c) (map (cost \<circ> snd) (tower_prototypes g))
      \<and> selection_ok (selected_tower g) (length (towers g)))"

text \<open>No tower and no prototype of the game has a negative damage.\<close>

definition armed :: "game \<Rightarrow> bool" where
  "armed g =
     (list_all (\<lambda>d. 0 \<le> d) (map damage (towers g))
      \<and> list_all (\<lambda>d. 0 \<le> d) (map (damage \<circ> snd) (tower_prototypes g)))"

section \<open>Concrete scenarios\<close>

text \<open>An enemy one short step away from the last waypoint of a two-point path.\<close>

definition walker :: enemy where
  "walker =
     \<lparr>enemy_path = [(0, 0), (1, 0)], path_index = 0, enemy_x = 0, enemy_y = 0,
      speed = 2, max_health = 50, health = 50, enemy_value = 10\<rparr>"

definition walker_arrived :: enemy where
  "walker_arrived = walker\<lparr>enemy_x := 1, enemy_y := 0, path_index := 1\<rparr>"

text \<open>
  A schedule with the single wave \<^verbatim>\<open>["basic"]\<close>, started; and the same after its only
  enemy was dequeued.
\<close>

definition one_wave :: wave_manager where
  "one_wave = snd (wm_start_wave (add_wave WaveManager [''basic'']))"

definition one_wave_dequeued :: wave_manager where
  "one_wave_dequeued = one_wave\<lparr>enemy_index := 1\<rparr>"

text \<open>
  A bomber tower at the origin (radius 80), an enemy in its range and a second enemy 30
  units behind the first, out of the tower's range.
\<close>

definition bomber_demo :: tower where
  "bomber_demo = new_BomberTower 0 0"

definition primary_demo :: enemy where
  "primary_demo = walker\<lparr>enemy_x := 70, enemy_y := 0\<rparr>"

definition bystander_demo :: enemy where
  "bystander_demo = walker\<lparr>enemy_x := 100, enemy_y := 0\<rparr>"

text \<open>The new game after the key 1: the basic tower is selected for placement.\<close>

definition demo_selected :: game where
  "demo_selected = select_tower_type TowerDefenseGame ''basic''"

text \<open>
  An enemy standing on the last waypoint of the game's path; the new game with such an
  enemy whose health is 0; and a game with one life left, all five waves over and that
  enemy, alive, as the last one.
\<close>

definition last_enemy :: enemy where
  "last_enemy =
     \<lparr>enemy_path = path TowerDefenseGame, path_index = 7, enemy_x = 800, enemy_y = 300,
      speed = 2, max_health = 50, health = 50, enemy_value = 10\<rparr>"

definition dead_at_end_demo :: game where
  "dead_at_end_demo = TowerDefenseGame\<lparr>enemies := [last_enemy\<lparr>health := 0\<rparr>]\<rparr>"

definition last_exit_demo :: game where
  "last_exit_demo =
     TowerDefenseGame\<lparr>lives := 1, wave_manager := (setup_waves WaveManager)\<lparr>current_wave := 5\<rparr>,
       enemies := [last_enemy]\<rparr>"

text \<open>
  A basic enemy at the start of the game's path with 10 health left, in range of a basic
  tower at the grid position (20, 260); the game with the two, and that game after one
  and after two ticks.
\<close>

definition weak_enemy :: enemy where
  "weak_enemy =
     \<lparr>enemy_path = path TowerDefenseGame, path_index = 0, enemy_x = 0, enemy_y = 300,
      speed = 2, max_health = 50, health = 10, enemy_value = 10\<rparr>"

definition kill_demo :: game where
  "kill_demo =
     TowerDefenseGame\<lparr>money := 150, towers := [new_BasicTower 20 260], enemies := [weak_enemy]\<rparr>"

definition kill_demo_1 :: game where
  "kill_demo_1 =
     kill_demo\<lparr>towers := [(new_BasicTower 20 260)\<lparr>target := Some 0, cooldown_counter := 30\<rparr>],
       enemies := [weak_enemy\<lparr>enemy_x := 2, health := 0\<rparr>]\<rparr>"

definition kill_demo_2 :: game where
  "kill_demo_2 =
     kill_demo_1\<lparr>money := 160, score := 10,
       towers := [(new_BasicTower 20 260)\<lparr>target := Some 0, cooldown_counter := 29\<rparr>],
       enemies := []\<rparr>"

text \<open>A lost game in which the basic tower is selected for placement.\<close>

definition game_over_demo :: game where
  "game_over_demo = demo_selected\<lparr>lives := 0, game_state := GAME_STATE_GAME_OVER\<rparr>"

text \<open>The game of \<open>kill_demo\<close> with all five waves over, before and after one tick.\<close>

definition final_kill_demo :: game where
  "final_kill_demo = kill_demo\<lparr>wave_manager := (setup_waves WaveManager)\<lparr>current_wave := 5\<rparr>\<rparr>"

definition final_kill_demo_1 :: game where
  "final_kill_demo_1 =
     kill_demo_1\<lparr>wave_manager := (setup_waves WaveManager)\<lparr>current_wave := 5\<rparr>\<rparr>"

text \<open>The new game after the key 1 and a click at (110, 95), and one tick.\<close>

definition first_frame_demo :: game where
  "first_frame_demo =
     TowerDefenseGame\<lparr>selected_tower_type := Some ''basic'',
       dragging_tower := Some (new_BasicTower 100 100),
       towers := [new_BasicTower 100 100], money := 150\<rparr>"

section \<open>Tower.upgrade\<close>

lemma py_int_nonneg: "0 \<le> r \<Longrightarrow> py_int r = \<lfloor>r\<rfloor>"
  by (simp add: py_int_def)

lemma max_10_py_int: "max 10 (py_int r) = max 10 \<lfloor>r\<rfloor>"
proof (cases "0 \<le> r")
  case True
  then show ?thesis by (simp add: py_int_def)
next
  case False
  then have "\<lfloor>r\<rfloor> \<le> 0" "\<lceil>r\<rceil> \<le> 0"
    by (simp_all add: floor_le_iff ceiling_le_iff)
  with False show ?thesis by (simp add: py_int_def)
qed

text \<open>
  C7. For a tower with non-negative damage (every tower of the game, as the last section
  shows: the three prototypes have damage 10, 30 and 15, and upgrading keeps it
  non-negative), \<^verbatim>\<open>upgrade()\<close>
  increments the level, sets damage to \<open>floor(damage * 1.5)\<close>, adds 20 to the range, sets
  cooldown to \<open>max(10, floor(cooldown * 0.8))\<close>, keeps the cost and every other field, and
  returns \<open>cost // 2\<close>. From damage 10, range 100, cooldown 30 one upgrade gives 15, 120, 24
  and a second one gives 22, 140, 19.
\<close>

theorem upgrade_effect:
  assumes "0 \<le> damage t"
  shows "level (snd (upgrade t)) = level t + 1
       \<and> damage (snd (upgrade t)) = \<lfloor>real_of_int (damage t) * 1.5\<rfloor>
       \<and> radius (snd (upgrade t)) = radius t + 20
       \<and> cooldown (snd (upgrade t)) = max 10 \<lfloor>real_of_int (cooldown t) * 0.8\<rfloor>
       \<and> cost (snd (upgrade t)) = cost t
       \<and> fst (upgrade t) = cost t div 2
       \<and> snd (upgrade t) = t\<lparr>level := level (snd (upgrade t)), damage := damage (snd (upgrade t)),
            radius := radius (snd (upgrade t)), cooldown := cooldown (snd (upgrade t))\<rparr>
       \<and> (damage t = 10 \<and> radius t = 100 \<and> cooldown t = 30 \<longrightarrow>
            damage (snd (upgrade t)) = 15 \<and> radius (snd (upgrade t)) = 120
          \<and> cooldown (snd (upgrade t)) = 24
          \<and> damage (snd (upgrade (snd (upgrade t)))) = 22
          \<and> radius (snd (upgrade (snd (upgrade t)))) = 140
          \<and> cooldown (snd (upgrade (snd (upgrade t)))) = 19)"
proof -
  have d: "py_int (real_of_int (damage t) * 1.5) = \<lfloor>real_of_int (damage t) * 1.5\<rfloor>"
    using assms by (simp add: py_int_nonneg)
  have general: "level (snd (upgrade t)) = level t + 1"
    "damage (snd (upgrade t)) = \<lfloor>real_of_int (damage t) * 1.5\<rfloor>"
    "radius (snd (upgrade t)) = radius t + 20"
    "cooldown (snd (upgrade t)) = max 10 \<lfloor>real_of_int (cooldown t) * 0.8\<rfloor>"
    "cost (snd (upgrade t)) = cost t"
    "fst (upgrade t) = cost t div 2"
    using d by (simp_all add: upgrade_def Let_def max_10_py_int)
  have frame: "snd (upgrade t) = t\<lparr>level := level (snd (upgrade t)),
      damage := damage (snd (upgrade t)), radius := radius (snd (upgrade t)),
      cooldown := cooldown (snd (upgrade t))\<rparr>"
    by (simp add: upgrade_def Let_def)
  have concrete: "damage (snd (upgrade (snd (upgrade t)))) = 22
      \<and> radius (snd (upgrade (snd (upgrade t)))) = 140
      \<and> cooldown (snd (upgrade (snd (upgrade t)))) = 19
      \<and> damage (snd (upgrade t)) = 15 \<and> radius (snd (upgrade t)) = 120
      \<and> cooldown (snd (upgrade t)) = 24"
    if "damage t = 10" "radius t = 100" "cooldown t = 30"
    using that by (simp add: upgrade_def Let_def py_int_def)
  from general frame concrete show ?thesis by blast
qed

theorem upgrade_effect_witness:
  "0 \<le> damage (new_BasicTower 100 100)
   \<and> damage (snd (upgrade (new_BasicTower 100 100))) = 15
   \<and> radius (snd (upgrade (new_BasicTower 100 100))) = 120
   \<and> cooldown (snd (upgrade (new_BasicTower 100 100))) = 24
   \<and> level (snd (upgrade (new_BasicTower 100 100))) = 2
   \<and> fst (upgrade (new_BasicTower 100 100)) = 25
   \<and> damage (snd (upgrade (snd (upgrade (new_BasicTower 100 100))))) = 22
   \<and> cooldown (snd (upgrade (snd (upgrade (new_BasicTower 100 100))))) = 19"
proof -
  have h: "0 \<le> damage (new_BasicTower 100 100)"
    by (simp add: new_BasicTower_def Tower_def)
  have i: "damage (new_BasicTower 100 100) = 10 \<and> radius (new_BasicTower 100 100) = 100
      \<and> cooldown (new_BasicTower 100 100) = 30 \<and> level (new_BasicTower 100 100) = 1
      \<and> cost (new_BasicTower 100 100) = 50"
    by (simp add: new_BasicTower_def Tower_def)
  from upgrade_effect [OF h] h i show ?thesis by simp
qed

section \<open>Enemy.update\<close>

lemma enemy_update_flag:
  "enemy_update e = Inr (r, e') \<Longrightarrow> r = (length (enemy_path e) \<le> path_index e + 1)"
  by (auto simp: enemy_update_def Let_def split: if_splits prod.splits)

lemma enemy_update_at_end:
  "length (enemy_path e) \<le> path_index e + 1 \<Longrightarrow> enemy_update e = Inr (True, e)"
  by (simp add: enemy_update_def)

lemma enemy_update_path: "enemy_update e = Inr (r, e') \<Longrightarrow> enemy_path e' = enemy_path e"
  by (auto simp: enemy_update_def Let_def split: if_splits prod.splits)

lemma enemy_update_health: "enemy_update e = Inr (r, e') \<Longrightarrow> health e' = health e"
  by (auto simp: enemy_update_def Let_def split: if_splits prod.splits)

lemma enemy_update_value: "enemy_update e = Inr (r, e') \<Longrightarrow> enemy_value e' = enemy_value e"
  by (auto simp: enemy_update_def Let_def split: if_splits prod.splits)

lemma enemy_update_snap:
  assumes "enemy_update e = Inr (r, e')" "path_index e' \<noteq> path_index e"
  shows "path_index e' = path_index e + 1 \<and> path_index e + 1 < length (enemy_path e)
       \<and> enemy_x e' = real_of_int (fst (enemy_path e ! (path_index e + 1)))
       \<and> enemy_y e' = real_of_int (snd (enemy_path e ! (path_index e + 1)))"
  using assms by (auto simp: enemy_update_def Let_def split: if_splits prod.splits)

text \<open>
  C10. \<^verbatim>\<open>Enemy.update\<close> returns \<^verbatim>\<open>True\<close> exactly when the call begins with the segment
  index at (or beyond) the last waypoint, and then changes nothing. The call that snaps
  the enemy onto the last waypoint returns \<^verbatim>\<open>False\<close> and costs no life; the next call
  returns \<^verbatim>\<open>True\<close>, and the first loop of \<^verbatim>\<open>update\<close> takes the life then.
\<close>

theorem enemy_update_end_one_call_late:
  assumes "enemy_update e = Inr (r, e')"
  shows "(r \<longleftrightarrow> length (enemy_path e) \<le> path_index e + 1)
       \<and> (r \<longrightarrow> e' = e)
       \<and> (path_index e' \<noteq> path_index e \<and> path_index e' + 1 = length (enemy_path e) \<longrightarrow>
            \<not> r \<and> enemy_x e' = real_of_int (fst (last (enemy_path e)))
          \<and> enemy_y e' = real_of_int (snd (last (enemy_path e)))
          \<and> enemy_update e' = Inr (True, e')
          \<and> (\<exists>m s seen. update_enemies [e] (l, m0, s0, []) = Inr (l, m, s, seen))
          \<and> update_enemies [e'] (l, m0, s0, []) = Inr (l - 1, m0, s0, [(e', True)]))"
proof (intro conjI impI)
  show "r \<longleftrightarrow> length (enemy_path e) \<le> path_index e + 1"
    using assms by (rule enemy_update_flag)
next
  assume r
  then show "e' = e"
    using assms by (auto simp: enemy_update_def Let_def split: if_splits prod.splits)
next
  assume a: "path_index e' \<noteq> path_index e \<and> path_index e' + 1 = length (enemy_path e)"
  from enemy_update_snap [OF assms] a
  have s: "path_index e' = path_index e + 1" "path_index e + 1 < length (enemy_path e)"
    "enemy_x e' = real_of_int (fst (enemy_path e ! (path_index e + 1)))"
    "enemy_y e' = real_of_int (snd (enemy_path e ! (path_index e + 1)))"
    by simp_all
  from s(2) show nr: "\<not> r" using enemy_update_flag [OF assms] by simp
  from a s(1) have "enemy_path e \<noteq> []" "path_index e + 1 = length (enemy_path e) - 1"
    by auto
  then have lst: "last (enemy_path e) = enemy_path e ! (path_index e + 1)"
    by (simp add: last_conv_nth)
  show "enemy_x e' = real_of_int (fst (last (enemy_path e)))" using s(3) lst by simp
  show "enemy_y e' = real_of_int (snd (last (enemy_path e)))" using s(4) lst by simp
  show nxt: "enemy_update e' = Inr (True, e')"
    using a enemy_update_path [OF assms] by (simp add: enemy_update_at_end)
  show "\<exists>m s seen. update_enemies [e] (l, m0, s0, []) = Inr (l, m, s, seen)"
    using assms nr by simp
  show "update_enemies [e'] (l, m0, s0, []) = Inr (l - 1, m0, s0, [(e', True)])"
    using nxt by simp
qed

theorem enemy_update_end_one_call_late_witness:
  "enemy_update walker = Inr (False, walker_arrived)
   \<and> path_index walker_arrived \<noteq> path_index walker
   \<and> path_index walker_arrived + 1 = length (enemy_path walker)
   \<and> enemy_update walker_arrived = Inr (True, walker_arrived)
   \<and> update_enemies [walker_arrived] (20, 200, 0, []) = Inr (19, 200, 0, [(walker_arrived, True)])"
proof -
  have h: "enemy_update walker = Inr (False, walker_arrived)"
    by (simp add: enemy_update_def walker_def walker_arrived_def)
  have i: "path_index walker_arrived \<noteq> path_index walker
      \<and> path_index walker_arrived + 1 = length (enemy_path walker)"
    by (simp add: walker_def walker_arrived_def)
  from enemy_update_end_one_call_late [OF h, of 20 200 0] h i show ?thesis by simp
qed

section \<open>WaveManager\<close>

lemma wm_update_waiting:
  "active wm \<Longrightarrow> spawn_timer wm + 1 < spawn_delay wm \<Longrightarrow>
   wm_update wm p = Inr (wm\<lparr>spawn_timer := spawn_timer wm + 1\<rparr>, None)"
  by (simp add: wm_update_def Let_def)

lemma wm_updates_waiting:
  "active wm \<Longrightarrow> spawn_timer wm + k < spawn_delay wm \<Longrightarrow>
   wm_updates k wm p = Inr (wm\<lparr>spawn_timer := spawn_timer wm + k\<rparr>)"
proof (induction k arbitrary: wm)
  case 0
  then show ?case by simp
next
  case (Suc k)
  have "wm_update wm p = Inr (wm\<lparr>spawn_timer := spawn_timer wm + 1\<rparr>, None)"
    using Suc.prems by (simp add: wm_update_waiting)
  moreover have "wm_updates k (wm\<lparr>spawn_timer := spawn_timer wm + 1\<rparr>) p
      = Inr (wm\<lparr>spawn_timer := spawn_timer wm + 1 + k\<rparr>)"
    using Suc.prems Suc.IH [of "wm\<lparr>spawn_timer := spawn_timer wm + 1\<rparr>"] by simp
  ultimately show ?case by simp
qed

lemma wm_updates_add:
  "wm_updates j wm p = Inr wm' \<Longrightarrow> wm_updates (j + k) wm p = wm_updates k wm' p"
  by (induction j arbitrary: wm) (auto split: sum.splits)

lemma wm_update_wave_over:
  assumes "active wm" "spawn_delay wm \<le> spawn_timer wm + 1"
    "current_wave wm < length (waves wm)"
    "length (waves wm ! current_wave wm) \<le> enemy_index wm"
  shows "wm_update wm p
       = Inr (wm\<lparr>spawn_timer := 0, active := False, current_wave := current_wave wm + 1\<rparr>, None)"
  using assms by (simp add: wm_update_def Let_def)

lemma wm_update_spawned:
  assumes "wm_update wm0 p = Inr (wm, Some e)"
  shows "active wm \<and> spawn_timer wm = 0 \<and> waves wm = waves wm0
       \<and> current_wave wm = current_wave wm0 \<and> spawn_delay wm = spawn_delay wm0
       \<and> enemy_index wm = enemy_index wm0 + 1 \<and> enemy_index wm0 < length (waves wm0 ! current_wave wm0)
       \<and> current_wave wm0 < length (waves wm0)
       \<and> create_enemy (waves wm0 ! current_wave wm0 ! enemy_index wm0) p = Inr e"
  using assms
  by (auto simp: wm_update_def Let_def bind_err_def split: if_splits sum.splits)

text \<open>
  C6, amended. \<^verbatim>\<open>is_finished()\<close> is false exactly while a wave remains unstarted or the
  current wave is active. After the call of \<^verbatim>\<open>update\<close> that dequeues the last enemy of the
  last wave it stays false for the next \<open>spawn_delay - 1\<close> calls and is true after the
  \<open>spawn_delay\<close>-th call (60 calls later, not one), which marks the wave inactive and
  makes the wave index equal to the wave count.
\<close>

theorem is_finished_after_spawn_delay:
  assumes "wm_update wm0 p = Inr (wm, Some e)"
    and "current_wave wm + 1 = length (waves wm)"
    and "enemy_index wm = length (waves wm ! current_wave wm)"
    and "0 < spawn_delay wm"
  shows "(is_finished w \<longleftrightarrow> \<not> (current_wave w < length (waves w) \<or> active w))
       \<and> \<not> is_finished wm
       \<and> (\<forall>k<spawn_delay wm. \<exists>wm'. wm_updates k wm p = Inr wm' \<and> \<not> is_finished wm')
       \<and> (\<exists>wm'. wm_updates (spawn_delay wm) wm p = Inr wm' \<and> is_finished wm'
              \<and> \<not> active wm' \<and> current_wave wm' = length (waves wm'))"
proof -
  from wm_update_spawned [OF assms(1)]
  have a: "active wm" and t: "spawn_timer wm = 0" by simp_all
  have wait: "wm_updates k wm p = Inr (wm\<lparr>spawn_timer := k\<rparr>)" if "k < spawn_delay wm" for k
    using wm_updates_waiting [of wm k p] a t that by simp
  have 1: "is_finished w \<longleftrightarrow> \<not> (current_wave w < length (waves w) \<or> active w)"
    by (auto simp: is_finished_def)
  have 2: "\<not> is_finished wm" using a by (simp add: is_finished_def)
  have 3: "\<forall>k<spawn_delay wm. \<exists>wm'. wm_updates k wm p = Inr wm' \<and> \<not> is_finished wm'"
    using wait a by (simp add: is_finished_def)
  obtain d where d: "spawn_delay wm = Suc d" using assms(4) by (cases "spawn_delay wm") auto
  let ?w = "wm\<lparr>spawn_timer := d\<rparr>"
  have "wm_updates (d + 1) wm p = wm_updates 1 ?w p"
    using wait [of d] d by (intro wm_updates_add) simp
  moreover have "wm_update ?w p
      = Inr (?w\<lparr>spawn_timer := 0, active := False, current_wave := current_wave ?w + 1\<rparr>, None)"
    using a d assms(2,3) by (intro wm_update_wave_over) simp_all
  ultimately have "wm_updates (spawn_delay wm) wm p
      = Inr (?w\<lparr>spawn_timer := 0, active := False, current_wave := current_wave ?w + 1\<rparr>)"
    using d by simp
  then have 4: "\<exists>wm'. wm_updates (spawn_delay wm) wm p = Inr wm' \<and> is_finished wm'
              \<and> \<not> active wm' \<and> current_wave wm' = length (waves wm')"
    using assms(2) by (simp add: is_finished_def)
  from 1 2 3 4 show ?thesis by blast
qed

lemma one_wave_facts:
  "active one_wave" "spawn_timer one_wave = 0" "spawn_delay one_wave = 60"
  "waves one_wave = [[''basic'']]" "current_wave one_wave = 0" "enemy_index one_wave = 0"
  by (simp_all add: one_wave_def wm_start_wave_def add_wave_def WaveManager_def)

lemma one_wave_59:
  "wm_updates 59 one_wave p = Inr (one_wave\<lparr>spawn_timer := 59\<rparr>)"
  using wm_updates_waiting [of one_wave 59 p] by (simp add: one_wave_facts)

lemma one_wave_60:
  "wm_update (one_wave\<lparr>spawn_timer := 59\<rparr>) [(0, 0), (1, 0)]
     = Inr (one_wave_dequeued, Some walker)"
  by (simp add: wm_update_def Let_def one_wave_facts one_wave_dequeued_def bind_err_def
      create_enemy_def Enemy_def walker_def)

theorem is_finished_after_spawn_delay_witness:
  "wm_update (one_wave\<lparr>spawn_timer := 59\<rparr>) [(0, 0), (1, 0)] = Inr (one_wave_dequeued, Some walker)
   \<and> current_wave one_wave_dequeued + 1 = length (waves one_wave_dequeued)
   \<and> enemy_index one_wave_dequeued = length (waves one_wave_dequeued ! current_wave one_wave_dequeued)
   \<and> 0 < spawn_delay one_wave_dequeued
   \<and> \<not> is_finished one_wave_dequeued
   \<and> (\<exists>wm'. wm_updates 60 one_wave_dequeued [(0, 0), (1, 0)] = Inr wm' \<and> is_finished wm'
          \<and> \<not> active wm' \<and> current_wave wm' = length (waves wm'))"
proof -
  have h: "current_wave one_wave_dequeued + 1 = length (waves one_wave_dequeued)"
    "enemy_index one_wave_dequeued = length (waves one_wave_dequeued ! current_wave one_wave_dequeued)"
    "0 < spawn_delay one_wave_dequeued" and d: "spawn_delay one_wave_dequeued = 60"
    by (simp_all add: one_wave_dequeued_def one_wave_facts)
  from is_finished_after_spawn_delay [where w = one_wave_dequeued, OF one_wave_60 h]
    one_wave_60 h d show ?thesis
    by simp
qed

text \<open>
  C6 as stated fails: one call after the only enemy of the only wave was dequeued,
  \<^verbatim>\<open>is_finished()\<close> is still false.
\<close>

theorem is_finished_one_tick_counterexample:
  "wm_updates 59 one_wave [(0, 0), (1, 0)] = Inr (one_wave\<lparr>spawn_timer := 59\<rparr>)
   \<and> wm_update (one_wave\<lparr>spawn_timer := 59\<rparr>) [(0, 0), (1, 0)] = Inr (one_wave_dequeued, Some walker)
   \<and> current_wave one_wave_dequeued + 1 = length (waves one_wave_dequeued)
   \<and> enemy_index one_wave_dequeued = length (waves one_wave_dequeued ! current_wave one_wave_dequeued)
   \<and> wm_update one_wave_dequeued [(0, 0), (1, 0)] = Inr (one_wave_dequeued\<lparr>spawn_timer := 1\<rparr>, None)
   \<and> \<not> is_finished (one_wave_dequeued\<lparr>spawn_timer := 1\<rparr>)"
  using one_wave_59 one_wave_60
  by (simp add: one_wave_dequeued_def one_wave_facts wm_update_waiting is_finished_def walker_def)

section \<open>Distances\<close>

lemma sqrt_le_iff_sq: "0 \<le> y \<Longrightarrow> sqrt y \<le> r \<longleftrightarrow> 0 \<le> r \<and> y \<le> r ^ 2"
  by (metis abs_le_square_iff abs_of_nonneg order_trans real_sqrt_ge_zero real_sqrt_pow2 real_sqrt_abs real_sqrt_le_iff)

lemma sqrt_less_iff_sq: "0 \<le> y \<Longrightarrow> sqrt y < r \<longleftrightarrow> 0 < r \<and> y < r ^ 2"
  by (metis not_less sqrt_le_iff_sq real_sqrt_ge_zero order_less_le_trans less_eq_real_def real_sqrt_lt_0_iff real_less_rsqrt  real_sqrt_less_iff real_sqrt_abs abs_of_nonneg)

lemma tower_distance_le:
  "tower_distance t e \<le> r \<longleftrightarrow>
     0 \<le> r \<and> (real_of_int (tower_x t) - enemy_x e) ^ 2 + (real_of_int (tower_y t) - enemy_y e) ^ 2 \<le> r ^ 2"
  by (simp add: tower_distance_def sqrt_le_iff_sq)

section \<open>BomberTower.attack\<close>

lemma bomb_loop_length: "length (snd (bomb_loop t js acc es)) = length es"
  by (induction js arbitrary: acc es) simp_all

lemma bomb_loop_total: "fst (bomb_loop t js acc es) = acc + damage t * int (length js)"
  by (induction js arbitrary: acc es) (simp_all add: algebra_simps)

lemma bomb_loop_nth:
  "distinct js \<Longrightarrow> j < length es \<Longrightarrow>
   snd (bomb_loop t js acc es) ! j = (if j \<in> set js then hit (damage t) (es ! j) else es ! j)"
proof (induction js arbitrary: acc es)
  case Nil
  then show ?case by simp
next
  case (Cons i js)
  let ?es = "es[i := hit (damage t) (es ! i)]"
  have "snd (bomb_loop t js (acc + damage t) ?es) ! j
      = (if j \<in> set js then hit (damage t) (?es ! j) else ?es ! j)"
    using Cons.prems by (intro Cons.IH) simp_all
  moreover have "j \<in> set js \<Longrightarrow> j \<noteq> i" using Cons.prems by auto
  ultimately show ?case using Cons.prems by (auto simp: nth_list_update)
qed

lemma set_enemies_in_range:
  "set (enemies_in_range t es)
     = {i. i < length es \<and> tower_distance t (es ! i) \<le> real_of_int (radius t)}"
  by (auto simp: enemies_in_range_def)

lemma distinct_enemies_in_range: "distinct (enemies_in_range t es)"
  by (simp add: enemies_in_range_def)

text \<open>
  C3, amended. An attack of a bomber tower that is off cooldown subtracts the damage from
  every enemy whose distance to the tower is at most the tower's own radius and from no
  other enemy (there is no explosion radius and no primary target); it returns the damage
  times the number of enemies hit, resets the cooldown counter if an enemy was hit, and
  returns 0 and changes nothing if no enemy is in range.
\<close>

theorem bomber_attack_hits_tower_range:
  assumes "tower_class t = BomberTower" and "can_attack t"
    and "attack t es = (acc, t', es')"
  shows "length es' = length es
       \<and> (\<forall>i<length es. es' ! i =
            (if tower_distance t (es ! i) \<le> real_of_int (radius t)
             then (es ! i)\<lparr>health := health (es ! i) - damage t\<rparr> else es ! i))
       \<and> acc = damage t * int (length (enemies_in_range t es))
       \<and> (enemies_in_range t es = [] \<longrightarrow> acc = 0 \<and> t' = t)
       \<and> (enemies_in_range t es \<noteq> [] \<longrightarrow> t' = t\<lparr>cooldown_counter := cooldown t\<rparr>)"
proof (cases "enemies_in_range t es = []")
  case True
  with assms have "acc = 0" "t' = t" "es' = es"
    by (simp_all add: attack_def bomber_attack_def)
  moreover have "\<not> tower_distance t (es ! i) \<le> real_of_int (radius t)" if "i < length es" for i
    using True that set_enemies_in_range [of t es] by auto
  ultimately show ?thesis using True by simp
next
  case False
  obtain tot es2 where b: "bomb_loop t (enemies_in_range t es) 0 es = (tot, es2)"
    by (cases "bomb_loop t (enemies_in_range t es) 0 es")
  with assms False have r: "acc = tot" "t' = t\<lparr>cooldown_counter := cooldown t\<rparr>" "es' = es2"
    by (simp_all add: attack_def bomber_attack_def)
  have "tot = damage t * int (length (enemies_in_range t es))"
    using bomb_loop_total [of t "enemies_in_range t es" 0 es] b by simp
  moreover have "length es2 = length es"
    using bomb_loop_length [of t "enemies_in_range t es" 0 es] b by simp
  moreover have "es2 ! i = (if tower_distance t (es ! i) \<le> real_of_int (radius t)
             then (es ! i)\<lparr>health := health (es ! i) - damage t\<rparr> else es ! i)"
    if "i < length es" for i
    using bomb_loop_nth [OF distinct_enemies_in_range [of t es] that, where t = t and acc = 0] b that
    by (simp add: set_enemies_in_range hit_def)
  ultimately show ?thesis using r False by simp
qed

lemma demo_in_range: "enemies_in_range bomber_demo [primary_demo, bystander_demo] = [0]"
  by (simp add: enemies_in_range_def tower_distance_le bomber_demo_def new_BomberTower_def
      Tower_def primary_demo_def bystander_demo_def walker_def upt_rec [of 0] upt_rec [of 1])

lemma demo_target: "find_target bomber_demo [primary_demo, bystander_demo] = Some 0"
  by (simp add: find_target_def tower_distance_le bomber_demo_def new_BomberTower_def
      Tower_def primary_demo_def bystander_demo_def walker_def)

text \<open>
  C3 as stated fails: the second enemy is 30 units from the nearest-in-range enemy, so
  within a blast of radius 50 around it, and keeps its health; the attack returns the
  damage of one hit.
\<close>

theorem bomber_blast_counterexample:
  "tower_class bomber_demo = BomberTower \<and> can_attack bomber_demo
   \<and> find_target bomber_demo [primary_demo, bystander_demo] = Some 0
   \<and> enemy_x bystander_demo - enemy_x primary_demo = 30
   \<and> enemy_y bystander_demo = enemy_y primary_demo
   \<and> attack bomber_demo [primary_demo, bystander_demo]
       = (15, bomber_demo\<lparr>cooldown_counter := 45\<rparr>,
          [primary_demo\<lparr>health := 35\<rparr>, bystander_demo])"
  using demo_in_range demo_target
  by (simp add: attack_def bomber_attack_def can_attack_def hit_def bomber_demo_def
      new_BomberTower_def Tower_def primary_demo_def bystander_demo_def walker_def)

theorem bomber_attack_hits_tower_range_witness:
  "tower_class bomber_demo = BomberTower \<and> can_attack bomber_demo
   \<and> attack bomber_demo [primary_demo, bystander_demo]
       = (15, bomber_demo\<lparr>cooldown_counter := 45\<rparr>, [primary_demo\<lparr>health := 35\<rparr>, bystander_demo])
   \<and> 15 = damage bomber_demo * int (length (enemies_in_range bomber_demo [primary_demo, bystander_demo]))"
proof -
  have h: "tower_class bomber_demo = BomberTower" "can_attack bomber_demo"
    by (simp_all add: bomber_demo_def new_BomberTower_def Tower_def can_attack_def)
  have a: "attack bomber_demo [primary_demo, bystander_demo]
       = (15, bomber_demo\<lparr>cooldown_counter := 45\<rparr>, [primary_demo\<lparr>health := 35\<rparr>, bystander_demo])"
    using demo_in_range
    by (simp add: attack_def bomber_attack_def can_attack_def hit_def bomber_demo_def
      new_BomberTower_def Tower_def primary_demo_def bystander_demo_def walker_def)
  from bomber_attack_hits_tower_range [OF h a] h a show ?thesis by simp
qed

section \<open>Placement\<close>

lemma point_distance_less:
  "point_distance x y px py < r \<longleftrightarrow> 0 < r \<and> real_of_int ((x - px) ^ 2 + (y - py) ^ 2) < r ^ 2"
  by (simp add: point_distance_def sqrt_less_iff_sq)

lemma is_position_valid_iff:
  "is_position_valid g (x, y) \<longleftrightarrow>
     0 \<le> x \<and> x < SCREEN_WIDTH \<and> 0 \<le> y \<and> y < SCREEN_HEIGHT
     \<and> (\<forall>(px, py) \<in> set (path g). 30 \<le> point_distance x y px py)
     \<and> (\<forall>t \<in> set (towers g). 40 \<le> point_distance x y (tower_x t) (tower_y t))"
proof -
  have p: "list_ex (\<lambda>(px, py). point_distance x y px py < 30) (path g)
      \<longleftrightarrow> \<not> (\<forall>(px, py) \<in> set (path g). 30 \<le> point_distance x y px py)"
    by (simp add: list_ex_iff split_beta not_le)
  have t: "list_ex (\<lambda>t. point_distance x y (tower_x t) (tower_y t) < 40) (towers g)
      \<longleftrightarrow> \<not> (\<forall>t \<in> set (towers g). 40 \<le> point_distance x y (tower_x t) (tower_y t))"
    by (simp add: list_ex_iff not_le)
  show ?thesis
    by (auto simp: is_position_valid_def p t)
qed

lemma place_tower_cases:
  assumes "place_tower g pos = Inr (ok, g')"
  shows "(ok \<longrightarrow>
           0 \<le> fst (get_grid_position pos) \<and> fst (get_grid_position pos) < SCREEN_WIDTH
         \<and> 0 \<le> snd (get_grid_position pos) \<and> snd (get_grid_position pos) < SCREEN_HEIGHT
         \<and> (\<forall>(px, py) \<in> set (path g).
               30 \<le> point_distance (fst (get_grid_position pos)) (snd (get_grid_position pos)) px py)
         \<and> (\<forall>t \<in> set (towers g).
               40 \<le> point_distance (fst (get_grid_position pos)) (snd (get_grid_position pos))
                      (tower_x t) (tower_y t))
         \<and> (\<exists>tower_type prototype.
               selected_tower_type g = Some tower_type
             \<and> map_of (tower_prototypes g) tower_type = Some prototype
             \<and> cost prototype \<le> money g
             \<and> money g' = money g - cost prototype
             \<and> towers g' = towers g @ [prototype\<lparr>tower_x := fst (get_grid_position pos),
                                                   tower_y := snd (get_grid_position pos)\<rparr>]
             \<and> g' = g\<lparr>towers := towers g', money := money g'\<rparr>))
       \<and> (\<not> ok \<longrightarrow> g' = g \<and> money g' = money g \<and> towers g' = towers g)"
proof (cases ok)
  case False
  with assms have "g' = g"
    by (auto simp: place_tower_def Let_def split: option.splits if_splits)
  with False show ?thesis by simp
next
  case True
  with assms obtain tower_type prototype where
    s: "selected_tower_type g = Some tower_type"
    and v: "is_position_valid g (get_grid_position pos)"
    and p: "map_of (tower_prototypes g) tower_type = Some prototype"
    and m: "cost prototype \<le> money g"
    and g': "g' = g\<lparr>towers := towers g @ [prototype\<lparr>tower_x := fst (get_grid_position pos),
                                                   tower_y := snd (get_grid_position pos)\<rparr>],
                   money := money g - cost prototype\<rparr>"
    by (auto simp: place_tower_def Let_def clone_def split: option.splits if_splits)
  from v have "is_position_valid g (fst (get_grid_position pos), snd (get_grid_position pos))"
    by simp
  note v' = this [unfolded is_position_valid_iff]
  from s p m g' v' True show ?thesis by simp
qed

text \<open>
  C8. A placement succeeds only if the snapped grid position is inside the screen, at
  distance at least 30 from every path point and at least 40 from every placed tower, and
  the money covers the cost of the selected prototype; then the money decreases by exactly
  that cost, exactly one tower (the prototype at the grid position) is appended and nothing
  else changes. A rejected placement leaves the whole game unchanged.
\<close>

theorem place_tower_effect:
  assumes "place_tower g pos = Inr (ok, g')"
  shows "(ok \<longrightarrow>
           0 \<le> fst (get_grid_position pos) \<and> fst (get_grid_position pos) < SCREEN_WIDTH
         \<and> 0 \<le> snd (get_grid_position pos) \<and> snd (get_grid_position pos) < SCREEN_HEIGHT
         \<and> (\<forall>(px, py) \<in> set (path g).
               30 \<le> point_distance (fst (get_grid_position pos)) (snd (get_grid_position pos)) px py)
         \<and> (\<forall>t \<in> set (towers g).
               40 \<le> point_distance (fst (get_grid_position pos)) (snd (get_grid_position pos))
                      (tower_x t) (tower_y t))
         \<and> (\<exists>tower_type prototype.
               selected_tower_type g = Some tower_type
             \<and> map_of (tower_prototypes g) tower_type = Some prototype
             \<and> cost prototype \<le> money g
             \<and> money g' = money g - cost prototype
             \<and> towers g' = towers g @ [prototype\<lparr>tower_x := fst (get_grid_position pos),
                                                   tower_y := snd (get_grid_position pos)\<rparr>]
             \<and> g' = g\<lparr>towers := towers g', money := money g'\<rparr>))
       \<and> (\<not> ok \<longrightarrow> g' = g \<and> money g' = money g \<and> towers g' = towers g)"
  using assms by (rule place_tower_cases)

lemma demo_selected_eq:
  "demo_selected = TowerDefenseGame\<lparr>selected_tower_type := Some ''basic'', selected_tower := None,
     dragging_tower := Some (new_BasicTower 0 0)\<rparr>"
  by (simp add: demo_selected_def select_tower_type_def TowerDefenseGame_def clone_def)

lemma demo_place:
  "place_tower demo_selected (110, 95)
     = Inr (True, demo_selected\<lparr>towers := [new_BasicTower 100 100], money := 150\<rparr>)"
  by (simp add: demo_selected_eq place_tower_def get_grid_position_def GRID_SIZE_def
      is_position_valid_def SCREEN_WIDTH_def SCREEN_HEIGHT_def point_distance_less
      TowerDefenseGame_def clone_def new_BasicTower_def Tower_def)

theorem place_tower_effect_witness:
  "place_tower demo_selected (110, 95)
     = Inr (True, demo_selected\<lparr>towers := [new_BasicTower 100 100], money := 150\<rparr>)
   \<and> get_grid_position (110, 95) = (100, 100)
   \<and> money demo_selected = 200
   \<and> (\<exists>prototype. map_of (tower_prototypes demo_selected) ''basic'' = Some prototype
          \<and> cost prototype = 50)"
proof -
  have "get_grid_position (110, 95) = (100, 100)"
    by (simp add: get_grid_position_def GRID_SIZE_def)
  moreover have "money demo_selected = 200"
    "map_of (tower_prototypes demo_selected) ''basic'' = Some (new_BasicTower 0 0)"
    "selected_tower_type demo_selected = Some ''basic''"
    "cost (new_BasicTower 0 0) = 50"
    by (simp_all add: demo_selected_eq TowerDefenseGame_def new_BasicTower_def Tower_def)
  ultimately show ?thesis
    using place_tower_effect [OF demo_place] demo_place by simp
qed

section \<open>TowerDefenseGame.update\<close>

lemma update_enemies_totals:
  "update_enemies es (l, m, s, seen) = Inr (l', m', s', seen') \<Longrightarrow>
   l' = l - int (length (exits es)) \<and> m' = m + bounty es \<and> s' = s + bounty es"
proof (induction es arbitrary: l m s seen)
  case Nil
  then show ?case by (simp add: exits_def kills_def bounty_def)
next
  case (Cons e es)
  from Cons.prems obtain r e1 where u: "enemy_update e = Inr (r, e1)"
    by (auto split: sum.splits)
  note f = enemy_update_flag [OF u] enemy_update_health [OF u] enemy_update_value [OF u]
  show ?case
  proof (cases r)
    case True
    with Cons.prems u have "update_enemies es (l - 1, m, s, seen @ [(e1, True)]) = Inr (l', m', s', seen')"
      by simp
    from Cons.IH [OF this] True f show ?thesis
      by (simp add: exits_def kills_def bounty_def at_end_def)
  next
    case False
    show ?thesis
    proof (cases "is_alive e1")
      case True
      with Cons.prems u False
      have "update_enemies es (l, m, s, seen @ [(e1, False)]) = Inr (l', m', s', seen')"
        by simp
      from Cons.IH [OF this] True False f show ?thesis
        by (simp add: exits_def kills_def bounty_def at_end_def is_alive_def)
    next
      case dead: False
      with Cons.prems u False
      have "update_enemies es (l, m + enemy_value e1, s + enemy_value e1, seen @ [(e1, True)])
          = Inr (l', m', s', seen')"
        by simp
      from Cons.IH [OF this] dead False f show ?thesis
        by (simp add: exits_def kills_def bounty_def at_end_def is_alive_def)
    qed
  qed
qed

lemma remove_marked_snoc:
  "remove_marked (seen @ [(e, b)]) = (if b then remove_marked seen else remove_marked seen @ [e])"
  by (simp add: remove_marked_def)

lemma update_enemies_survivors:
  "update_enemies es (l, m, s, seen) = Inr (l', m', s', seen') \<Longrightarrow>
   remove_marked seen' = remove_marked seen @ survivors es"
proof (induction es arbitrary: l m s seen)
  case Nil
  then show ?case by (simp add: survivors_def)
next
  case (Cons e es)
  from Cons.prems obtain r e1 where u: "enemy_update e = Inr (r, e1)"
    by (cases "enemy_update e") auto
  have flag: "r = at_end e" using enemy_update_flag [OF u] by (simp add: at_end_def)
  have hl: "health e1 = health e" using u by (rule enemy_update_health)
  have mv: "moved e = e1" using u by (simp add: moved_def)
  show ?case
  proof (cases "at_end e \<or> health e \<le> 0")
    case True
    then have sv: "survivors (e # es) = survivors es"
      by (auto simp: survivors_def)
    from True Cons.prems u flag hl obtain l1 m1 s1 where
      "update_enemies es (l1, m1, s1, seen @ [(e1, True)]) = Inr (l', m', s', seen')"
      by (cases r) (simp_all add: is_alive_def)
    from Cons.IH [OF this] sv show ?thesis by (simp add: remove_marked_snoc)
  next
    case False
    then have sv: "survivors (e # es) = e1 # survivors es"
      using mv by (simp add: survivors_def)
    from False Cons.prems u flag hl
    have "update_enemies es (l, m, s, seen @ [(e1, False)]) = Inr (l', m', s', seen')"
      by (simp add: is_alive_def)
    from Cons.IH [OF this] sv show ?thesis by (simp add: remove_marked_snoc)
  qed
qed

lemma survivors_alive: "e \<in> set (survivors es) \<Longrightarrow> 0 < health e"
proof -
  have "0 < health (moved x)" if "0 < health x" for x
    using that enemy_update_health [of x]
    by (cases "enemy_update x") (auto simp: moved_def)
  then show "e \<in> set (survivors es) \<Longrightarrow> 0 < health e"
    by (auto simp: survivors_def)
qed

lemma moved_value: "enemy_value (moved x) = enemy_value x"
  using enemy_update_value [of x]
  by (cases "enemy_update x") (auto simp: moved_def)

lemma update_unfold:
  assumes "update g = Inr g'"
  shows "\<exists>wm new_enemy seen ts es.
    wm_update (wave_manager g) (path g) = Inr (wm, new_enemy)
    \<and> update_enemies (spawn g new_enemy) (lives g, money g, score g, [])
       = Inr (lives g', money g', score g', seen)
    \<and> update_towers (towers g) (remove_marked seen) = (ts, es)
    \<and> g' = check_state (g\<lparr>wave_manager := wm, lives := lives g', money := money g',
           score := score g', towers := ts, enemies := es\<rparr>)"
proof -
  from assms obtain wm new_enemy where
    w: "wm_update (wave_manager g) (path g) = Inr (wm, new_enemy)"
    by (cases "wm_update (wave_manager g) (path g)") (auto simp: update_def bind_err_def)
  from assms w obtain l m s seen where
    u: "update_enemies (spawn g new_enemy) (lives g, money g, score g, []) = Inr (l, m, s, seen)"
    by (cases "update_enemies (spawn g new_enemy) (lives g, money g, score g, [])")
       (auto simp: update_def bind_err_def Let_def)
  obtain ts es where t: "update_towers (towers g) (remove_marked seen) = (ts, es)"
    by (cases "update_towers (towers g) (remove_marked seen)")
  from assms w u t
  have g': "g' = check_state (g\<lparr>wave_manager := wm, lives := l,
           money := m, score := s, towers := ts, enemies := es\<rparr>)"
    by (simp add: update_def bind_err_def Let_def)
  then have e: "lives g' = l" "money g' = m" "score g' = s"
    by (simp_all add: check_state_def Let_def)
  show ?thesis
    apply (rule exI [of _ wm], rule exI [of _ new_enemy], rule exI [of _ seen],
           rule exI [of _ ts], rule exI [of _ es])
    using w u t g' e by simp
qed

lemma tower_attack_length: "tower_attack t es = (d, t', es') \<Longrightarrow> length es' = length es"
  by (auto simp: tower_attack_def Let_def split: if_splits option.splits)

lemma bomber_attack_length: "bomber_attack t es = (d, t', es') \<Longrightarrow> length es' = length es"
  using bomb_loop_length [of t "enemies_in_range t es" 0 es]
  by (auto simp: bomber_attack_def Let_def split: if_splits prod.splits)

lemma attack_length: "attack t es = (d, t', es') \<Longrightarrow> length es' = length es"
  by (cases "tower_class t") (simp_all add: attack_def tower_attack_length bomber_attack_length)

lemma update_towers_length:
  "update_towers ts es = (ts', es') \<Longrightarrow> length es' = length es \<and> length ts' = length ts"
proof (induction ts arbitrary: es ts' es')
  case Nil
  then show ?case by simp
next
  case (Cons t ts)
  obtain d t1 es1 where a: "attack t es = (d, t1, es1)" by (cases "attack t es") auto
  obtain ts2 es2 where r: "update_towers ts es1 = (ts2, es2)" by (cases "update_towers ts es1")
  from Cons.prems a r have "es' = es2" "ts' = t1 # ts2" by simp_all
  with Cons.IH [OF r] attack_length [OF a] show ?case by simp
qed

lemma wm_update_inactive: "\<not> active wm \<Longrightarrow> wm_update wm p = Inr (wm, None)"
  by (simp add: wm_update_def)

lemma setup_waves_facts:
  "\<not> active (setup_waves WaveManager)" "length (waves (setup_waves WaveManager)) = 5"
  "current_wave (setup_waves WaveManager) = 0"
  by (simp_all add: setup_waves_def add_wave_def WaveManager_def Let_def)

lemma game_facts:
  "towers TowerDefenseGame = []" "lives TowerDefenseGame = 20" "money TowerDefenseGame = 200"
  "score TowerDefenseGame = 0" "wave_manager TowerDefenseGame = setup_waves WaveManager"
  "game_state TowerDefenseGame = GAME_STATE_PLAYING" "enemies TowerDefenseGame = []"
  "length (path TowerDefenseGame) = 8"
  by (simp_all add: TowerDefenseGame_def)

lemma last_enemy_update: "enemy_update (last_enemy\<lparr>health := h\<rparr>) = Inr (True, last_enemy\<lparr>health := h\<rparr>)"
  by (rule enemy_update_at_end) (simp add: last_enemy_def game_facts)

text \<open>
  C1, amended. In a tick every enemy that begins it at the end of the path is resolved as
  an exit, whatever its health: it costs one life and credits no bounty (the exit check
  comes first, the health check is its \<^verbatim>\<open>elif\<close>). Money and score grow by the values of
  the enemies that are not at the end and have health \<open>\<le> 0\<close>.
\<close>

theorem update_exit_before_kill:
  assumes "update g = Inr g'" and "wm_update (wave_manager g) (path g) = Inr (wm, new_enemy)"
  shows "lives g' = lives g - int (length (exits (spawn g new_enemy)))
       \<and> money g' = money g + bounty (spawn g new_enemy)
       \<and> score g' = score g + bounty (spawn g new_enemy)
       \<and> (\<forall>e \<in> set (spawn g new_enemy). at_end e \<and> health e \<le> 0 \<longrightarrow>
            e \<in> set (exits (spawn g new_enemy)) \<and> e \<notin> set (kills (spawn g new_enemy)))"
proof -
  from update_unfold [OF assms(1)] assms(2) obtain seen where
    "update_enemies (spawn g new_enemy) (lives g, money g, score g, [])
       = Inr (lives g', money g', score g', seen)"
    by auto
  from update_enemies_totals [OF this] show ?thesis
    by (simp add: exits_def kills_def)
qed

lemma dead_at_end_update:
  "update dead_at_end_demo = Inr (dead_at_end_demo\<lparr>lives := 19, enemies := []\<rparr>)"
  by (simp add: update_def dead_at_end_demo_def game_facts wm_update_inactive setup_waves_facts
      bind_err_def spawn_def last_enemy_update remove_marked_def check_state_def is_finished_def)

text \<open>
  C1 as stated fails: an enemy with health 0 at the end of the path costs a life and
  brings no money and no score.
\<close>

theorem kill_and_exit_counterexample:
  "health (hd (enemies dead_at_end_demo)) \<le> 0 \<and> at_end (hd (enemies dead_at_end_demo))
   \<and> update dead_at_end_demo = Inr (dead_at_end_demo\<lparr>lives := 19, enemies := []\<rparr>)
   \<and> lives dead_at_end_demo = 20 \<and> money dead_at_end_demo = 200 \<and> score dead_at_end_demo = 0
   \<and> enemy_value (hd (enemies dead_at_end_demo)) = 10"
  using dead_at_end_update
  by (simp add: dead_at_end_demo_def last_enemy_def at_end_def game_facts)

theorem update_exit_before_kill_witness:
  "update dead_at_end_demo = Inr (dead_at_end_demo\<lparr>lives := 19, enemies := []\<rparr>)
   \<and> wm_update (wave_manager dead_at_end_demo) (path dead_at_end_demo)
       = Inr (wave_manager dead_at_end_demo, None)
   \<and> length (exits (spawn dead_at_end_demo None)) = 1
   \<and> bounty (spawn dead_at_end_demo None) = 0
   \<and> lives (dead_at_end_demo\<lparr>lives := 19, enemies := []\<rparr>) = lives dead_at_end_demo - 1
   \<and> money (dead_at_end_demo\<lparr>lives := 19, enemies := []\<rparr>) = money dead_at_end_demo"
proof -
  have w: "wm_update (wave_manager dead_at_end_demo) (path dead_at_end_demo)
       = Inr (wave_manager dead_at_end_demo, None)"
    by (simp add: dead_at_end_demo_def game_facts wm_update_inactive setup_waves_facts)
  have e: "length (exits (spawn dead_at_end_demo None)) = 1"
    "bounty (spawn dead_at_end_demo None) = 0"
    by (simp_all add: spawn_def exits_def bounty_def kills_def at_end_def dead_at_end_demo_def
        last_enemy_def game_facts)
  from update_exit_before_kill [OF dead_at_end_update w] dead_at_end_update w e
  show ?thesis by simp
qed

lemma check_state_eq:
  "check_state g = g\<lparr>game_state :=
     (if is_finished (wave_manager g) \<and> enemies g = [] then GAME_STATE_VICTORY
      else if lives g \<le> 0 then GAME_STATE_GAME_OVER else game_state g)\<rparr>"
  by (simp add: check_state_def Let_def)

text \<open>
  C2, amended. A tick runs in this order: (1) the wave manager may spawn an enemy; (2) one
  loop over all enemies, dead ones included, moves each and resolves it at once, as an
  exit (a life lost) or else as a kill (bounty to money and score); lives, money and score
  are final after this loop; (3) the resolved enemies are removed, so every enemy left is
  alive; (4) every tower attacks the enemies left, and none is removed afterwards;
  (5) the game state is evaluated. Combat follows removal: an enemy killed by an attack
  stays in the list and its bounty is not credited in the tick of the killing attack.
\<close>

theorem update_combat_after_removal:
  assumes "update g = Inr g'" and "wm_update (wave_manager g) (path g) = Inr (wm, new_enemy)"
  shows "wave_manager g' = wm
       \<and> (\<exists>seen. update_enemies (spawn g new_enemy) (lives g, money g, score g, [])
                    = Inr (lives g', money g', score g', seen)
                 \<and> remove_marked seen = survivors (spawn g new_enemy))
       \<and> (\<forall>e \<in> set (survivors (spawn g new_enemy)). 0 < health e)
       \<and> update_towers (towers g) (survivors (spawn g new_enemy)) = (towers g', enemies g')
       \<and> length (enemies g') = length (survivors (spawn g new_enemy))
       \<and> money g' = money g + bounty (spawn g new_enemy)
       \<and> score g' = score g + bounty (spawn g new_enemy)
       \<and> g' = check_state (g'\<lparr>game_state := game_state g\<rparr>)"
proof -
  from update_unfold [OF assms(1)] assms(2) obtain seen ts es where
    u: "update_enemies (spawn g new_enemy) (lives g, money g, score g, [])
       = Inr (lives g', money g', score g', seen)"
    and t: "update_towers (towers g) (remove_marked seen) = (ts, es)"
    and g': "g' = check_state (g\<lparr>wave_manager := wm, lives := lives g', money := money g',
           score := score g', towers := ts, enemies := es\<rparr>)"
    by auto
  let ?x = "g\<lparr>wave_manager := wm, lives := lives g', money := money g',
           score := score g', towers := ts, enemies := es\<rparr>"
  have r: "remove_marked seen = survivors (spawn g new_enemy)"
    using update_enemies_survivors [OF u] by (simp add: remove_marked_def)
  have f: "wave_manager g' = wm" "towers g' = ts" "enemies g' = es"
    by (subst g', simp add: check_state_eq)+
  have x: "g'\<lparr>game_state := game_state g\<rparr> = ?x"
    by (subst g') (simp add: check_state_eq)
  have c: "g' = check_state (g'\<lparr>game_state := game_state g\<rparr>)"
    unfolding x by (rule g')
  have l: "length es = length (survivors (spawn g new_enemy))"
    using update_towers_length [OF t] r by simp
  have a: "\<forall>e \<in> set (survivors (spawn g new_enemy)). 0 < health e"
    by (simp add: survivors_alive)
  from update_enemies_totals [OF u] u r t f c l a show ?thesis by auto
qed

lemma sqrt_40000: "sqrt 40000 = 200"
  by (rule real_sqrt_unique) simp_all

lemma sqrt_39204: "sqrt 39204 = 198"
  by (rule real_sqrt_unique) simp_all

lemma weak_enemy_step_1:
  "enemy_update weak_enemy = Inr (False, weak_enemy\<lparr>enemy_x := 2\<rparr>)"
  by (simp add: enemy_update_def weak_enemy_def TowerDefenseGame_def sqrt_40000)

lemma weak_enemy_step_2:
  "enemy_update (weak_enemy\<lparr>enemy_x := 2, health := 0\<rparr>)
     = Inr (False, weak_enemy\<lparr>enemy_x := 4, health := 0\<rparr>)"
  by (simp add: enemy_update_def weak_enemy_def TowerDefenseGame_def sqrt_39204)

lemma kill_demo_attack:
  "attack (new_BasicTower 20 260) [weak_enemy\<lparr>enemy_x := 2\<rparr>]
     = (10, (new_BasicTower 20 260)\<lparr>target := Some 0, cooldown_counter := 30\<rparr>,
        [weak_enemy\<lparr>enemy_x := 2, health := 0\<rparr>])"
  by (simp add: attack_def tower_attack_def can_attack_def find_target_def tower_distance_le
      hit_def new_BasicTower_def Tower_def weak_enemy_def)

lemma kill_demo_wait:
  "attack ((new_BasicTower 20 260)\<lparr>target := Some 0, cooldown_counter := 30\<rparr>) []
     = (0, (new_BasicTower 20 260)\<lparr>target := Some 0, cooldown_counter := 29\<rparr>, [])"
  by (simp add: attack_def tower_attack_def can_attack_def new_BasicTower_def Tower_def)

lemma kill_demo_update_1: "update kill_demo = Inr kill_demo_1"
  by (simp add: update_def kill_demo_def kill_demo_1_def game_facts wm_update_inactive
      setup_waves_facts bind_err_def spawn_def weak_enemy_step_1 is_alive_def
      remove_marked_def kill_demo_attack check_state_eq is_finished_def)
     (simp add: weak_enemy_def)

lemma kill_demo_update_2: "update kill_demo_1 = Inr kill_demo_2"
  by (simp add: update_def kill_demo_def kill_demo_1_def kill_demo_2_def game_facts
      wm_update_inactive setup_waves_facts bind_err_def spawn_def weak_enemy_step_2 is_alive_def
      remove_marked_def kill_demo_wait check_state_eq is_finished_def)
     (simp add: weak_enemy_def TowerDefenseGame_def)

text \<open>
  C2 as stated fails: the attack of the first tick takes the enemy's health from 10 to 0,
  but the enemy is still in the list and money and score are unchanged after that tick;
  the bounty arrives in the second tick.
\<close>

theorem kill_credited_next_tick_counterexample:
  "update kill_demo = Inr kill_demo_1
   \<and> health (hd (enemies kill_demo)) = 10 \<and> health (hd (enemies kill_demo_1)) = 0
   \<and> length (enemies kill_demo_1) = 1
   \<and> money kill_demo_1 = money kill_demo \<and> score kill_demo_1 = score kill_demo
   \<and> update kill_demo_1 = Inr kill_demo_2
   \<and> money kill_demo_2 = money kill_demo_1 + 10 \<and> score kill_demo_2 = score kill_demo_1 + 10
   \<and> enemies kill_demo_2 = []"
  using kill_demo_update_1 kill_demo_update_2
  by (simp add: kill_demo_def kill_demo_1_def kill_demo_2_def weak_enemy_def game_facts)

theorem update_combat_after_removal_witness:
  "update kill_demo = Inr kill_demo_1
   \<and> wm_update (wave_manager kill_demo) (path kill_demo) = Inr (wave_manager kill_demo, None)
   \<and> survivors (spawn kill_demo None) = [weak_enemy\<lparr>enemy_x := 2\<rparr>]
   \<and> bounty (spawn kill_demo None) = 0
   \<and> update_towers (towers kill_demo) [weak_enemy\<lparr>enemy_x := 2\<rparr>]
        = (towers kill_demo_1, enemies kill_demo_1)
   \<and> money kill_demo_1 = money kill_demo"
proof -
  have w: "wm_update (wave_manager kill_demo) (path kill_demo) = Inr (wave_manager kill_demo, None)"
    by (simp add: kill_demo_def game_facts wm_update_inactive setup_waves_facts)
  have s: "survivors (spawn kill_demo None) = [weak_enemy\<lparr>enemy_x := 2\<rparr>]"
    using weak_enemy_step_1
    by (simp add: survivors_def spawn_def kill_demo_def moved_def at_end_def)
       (simp add: weak_enemy_def game_facts)
  have b: "bounty (spawn kill_demo None) = 0"
    by (simp add: bounty_def kills_def spawn_def kill_demo_def weak_enemy_def)
  from update_combat_after_removal [OF kill_demo_update_1 w] kill_demo_update_1 w s b
  show ?thesis by simp
qed

section \<open>Commands and the game state\<close>

lemma is_position_valid_state [simp]:
  "is_position_valid (g\<lparr>game_state := s\<rparr>) pos = is_position_valid g pos"
  by (simp add: is_position_valid_def)

lemma place_tower_state:
  "place_tower (g\<lparr>game_state := s\<rparr>) pos
     = map_sum id (map_prod id (\<lambda>h. h\<lparr>game_state := s\<rparr>)) (place_tower g pos)"
  by (simp add: place_tower_def Let_def split: option.splits)

lemma upgrade_selected_tower_state:
  "upgrade_selected_tower (g\<lparr>game_state := s\<rparr>)
     = map_prod id (\<lambda>h. h\<lparr>game_state := s\<rparr>) (upgrade_selected_tower g)"
  by (simp add: upgrade_selected_tower_def Let_def split: option.splits)

lemma sell_selected_tower_state:
  "sell_selected_tower (g\<lparr>game_state := s\<rparr>)
     = map_sum id (map_prod id (\<lambda>h. h\<lparr>game_state := s\<rparr>)) (sell_selected_tower g)"
  by (simp add: sell_selected_tower_def Let_def split: option.splits)

lemma start_wave_state:
  "start_wave (g\<lparr>game_state := s\<rparr>) = map_prod id (\<lambda>h. h\<lparr>game_state := s\<rparr>) (start_wave g)"
  by (simp add: start_wave_def split: prod.splits)

lemma select_tower_state:
  "select_tower (g\<lparr>game_state := s\<rparr>) pos
     = map_prod id (\<lambda>h. h\<lparr>game_state := s\<rparr>) (select_tower g pos)"
  by (simp add: select_tower_def split: option.splits)

lemma select_tower_type_state:
  "select_tower_type (g\<lparr>game_state := s\<rparr>) ty = (select_tower_type g ty)\<lparr>game_state := s\<rparr>"
  by (simp add: select_tower_type_def split: option.splits)

lemma number_key_state:
  "number_key (g\<lparr>game_state := s\<rparr>) i = (number_key g i)\<lparr>game_state := s\<rparr>"
  by (simp add: number_key_def select_tower_type_state)

lemma handle_event_state:
  "handle_event mouse_pos ev (g\<lparr>game_state := s\<rparr>)
     = map_sum id (\<lambda>h. h\<lparr>game_state := s\<rparr>) (handle_event mouse_pos ev g)"
proof (cases ev)
  case (KEYDOWN k)
  then show ?thesis
    by (cases k; cases "sell_selected_tower g")
       (simp_all add: handle_event_def start_wave_state upgrade_selected_tower_state
         sell_selected_tower_state number_key_state bind_err_def)
next
  case (MOUSEBUTTONDOWN b)
  then show ?thesis
    by (cases "place_tower g mouse_pos")
       (simp_all add: handle_event_def place_tower_state select_tower_state bind_err_def)
qed (simp_all add: handle_event_def)

lemma process_events_state:
  "process_events mouse_pos evs (g\<lparr>game_state := s\<rparr>)
     = map_sum id (map_prod id (\<lambda>h. h\<lparr>game_state := s\<rparr>)) (process_events mouse_pos evs g)"
proof (induction evs arbitrary: g)
  case Nil
  then show ?case by (simp add: Let_def split: option.splits)
next
  case (Cons ev evs)
  show ?case
  proof (cases "handle_event mouse_pos ev g")
    case (Inl err)
    then show ?thesis by (simp add: handle_event_state)
  next
    case (Inr h)
    then show ?thesis using Cons.IH [of h] by (simp add: handle_event_state)
  qed
qed

text \<open>
  C5, amended. The commands (place tower, upgrade, sell, start wave, and the event loop
  as a whole) neither read nor write the game state: in GameOver or Victory each of them
  returns the same result and has the same effect on towers, money and waves as in
  Playing. Nothing is rejected because the game has ended, and there is no reset command.
\<close>

theorem commands_ignore_game_state:
  "place_tower (g\<lparr>game_state := s\<rparr>) pos
     = map_sum id (map_prod id (\<lambda>h. h\<lparr>game_state := s\<rparr>)) (place_tower g pos)
   \<and> upgrade_selected_tower (g\<lparr>game_state := s\<rparr>)
     = map_prod id (\<lambda>h. h\<lparr>game_state := s\<rparr>) (upgrade_selected_tower g)
   \<and> sell_selected_tower (g\<lparr>game_state := s\<rparr>)
     = map_sum id (map_prod id (\<lambda>h. h\<lparr>game_state := s\<rparr>)) (sell_selected_tower g)
   \<and> start_wave (g\<lparr>game_state := s\<rparr>)
     = map_prod id (\<lambda>h. h\<lparr>game_state := s\<rparr>) (start_wave g)
   \<and> process_events mouse_pos evs (g\<lparr>game_state := s\<rparr>)
     = map_sum id (map_prod id (\<lambda>h. h\<lparr>game_state := s\<rparr>)) (process_events mouse_pos evs g)"
  by (simp only: place_tower_state upgrade_selected_tower_state sell_selected_tower_state
      start_wave_state process_events_state simp_thms)

text \<open>
  C5 as stated fails: in a lost game a placement succeeds, adds the tower and takes the
  money, and the next wave can be started.
\<close>

theorem game_over_placement_counterexample:
  "game_state game_over_demo = GAME_STATE_GAME_OVER \<and> money game_over_demo = 200
   \<and> towers game_over_demo = []
   \<and> place_tower game_over_demo (110, 95)
       = Inr (True, game_over_demo\<lparr>towers := [new_BasicTower 100 100], money := 150\<rparr>)
   \<and> start_wave game_over_demo
       = (True, game_over_demo\<lparr>wave_manager := (wave_manager game_over_demo)\<lparr>active := True\<rparr>\<rparr>)"
  by (simp add: game_over_demo_def demo_selected_eq place_tower_def get_grid_position_def
      GRID_SIZE_def is_position_valid_def SCREEN_WIDTH_def SCREEN_HEIGHT_def point_distance_less
      TowerDefenseGame_def clone_def new_BasicTower_def Tower_def start_wave_def
      wm_start_wave_def setup_waves_def add_wave_def WaveManager_def Let_def)

theorem commands_ignore_game_state_witness:
  "place_tower (demo_selected\<lparr>game_state := GAME_STATE_VICTORY\<rparr>) (110, 95)
     = Inr (True, demo_selected\<lparr>towers := [new_BasicTower 100 100], money := 150,
                   game_state := GAME_STATE_VICTORY\<rparr>)"
  using commands_ignore_game_state
      [where g = demo_selected and s = GAME_STATE_VICTORY and pos = "(110, 95)"] demo_place
  by simp

section \<open>Game state\<close>

lemma process_events_game_state:
  assumes "process_events mouse_pos evs g = Inr (running, g1)"
  shows "game_state g1 = game_state g"
proof -
  have "process_events mouse_pos evs (g\<lparr>game_state := game_state g\<rparr>)
      = map_sum id (map_prod id (\<lambda>h. h\<lparr>game_state := game_state g\<rparr>))
          (process_events mouse_pos evs g)"
    by (rule process_events_state)
  with assms have "g1 = g1\<lparr>game_state := game_state g\<rparr>" by simp
  then have "game_state g1 = game_state (g1\<lparr>game_state := game_state g\<rparr>)" by simp
  then show ?thesis by simp
qed

lemma update_game_state:
  assumes "update g = Inr g'"
  shows "game_state g' =
     (if is_finished (wave_manager g') \<and> enemies g' = [] then GAME_STATE_VICTORY
      else if lives g' \<le> 0 then GAME_STATE_GAME_OVER else game_state g)"
proof -
  from update_unfold [OF assms] obtain x where "g' = check_state x" "game_state x = game_state g"
    by auto
  then show ?thesis by (simp add: check_state_eq)
qed

text \<open>
  C4, amended. A tick (the \<^verbatim>\<open>update\<close> that \<^verbatim>\<open>run\<close> calls only in Playing) changes nothing
  in GameOver or Victory, and neither does a whole iteration of the loop of \<^verbatim>\<open>run\<close>
  change the state then. From Playing, with lives left after the tick, the state becomes
  Victory exactly when the wave manager is finished and the enemy list is empty after the
  tick, and stays Playing otherwise; when that victory condition does not hold, the state
  becomes GameOver exactly when lives \<open>\<le> 0\<close>.
\<close>

theorem tick_state_transitions:
  assumes "tick g = Inr g'"
  shows "(game_state g \<noteq> GAME_STATE_PLAYING \<longrightarrow> g' = g)
       \<and> (game_state g = GAME_STATE_PLAYING \<and> 0 < lives g' \<longrightarrow>
            (game_state g' = GAME_STATE_VICTORY
               \<longleftrightarrow> is_finished (wave_manager g') \<and> enemies g' = [])
          \<and> (game_state g' = GAME_STATE_PLAYING
               \<longleftrightarrow> \<not> (is_finished (wave_manager g') \<and> enemies g' = []))
          \<and> game_state g' \<noteq> GAME_STATE_GAME_OVER)
       \<and> (game_state g = GAME_STATE_PLAYING
            \<and> \<not> (is_finished (wave_manager g') \<and> enemies g' = []) \<longrightarrow>
            (game_state g' = GAME_STATE_GAME_OVER \<longleftrightarrow> lives g' \<le> 0)
          \<and> game_state g' \<noteq> GAME_STATE_VICTORY)
       \<and> (\<forall>mouse_pos evs running g2.
            game_state g \<noteq> GAME_STATE_PLAYING \<and> run_step mouse_pos evs g = Inr (running, g2)
            \<longrightarrow> game_state g2 = game_state g)"
proof -
  have 1: "g' = g" if "game_state g \<noteq> GAME_STATE_PLAYING"
    using assms that by (simp add: tick_def)
  have s: "game_state g' =
     (if is_finished (wave_manager g') \<and> enemies g' = [] then GAME_STATE_VICTORY
      else if lives g' \<le> 0 then GAME_STATE_GAME_OVER else GAME_STATE_PLAYING)"
    if "game_state g = GAME_STATE_PLAYING"
  proof -
    from assms that have "update g = Inr g'" by (simp add: tick_def)
    from update_game_state [OF this] that show ?thesis by simp
  qed
  have 4: "game_state g2 = game_state g"
    if a: "game_state g \<noteq> GAME_STATE_PLAYING \<and> run_step mouse_pos evs g = Inr (running, g2)"
    for mouse_pos evs running g2
  proof -
    from a obtain r g1 where e: "process_events mouse_pos evs g = Inr (r, g1)"
      and t: "tick g1 = Inr g2"
      by (cases "process_events mouse_pos evs g")
         (auto simp: run_step_def bind_err_def split: sum.splits)
    from process_events_game_state [OF e] a t show ?thesis
      by (simp add: tick_def)
  qed
  show ?thesis
  proof (intro conjI impI allI)
    show "g' = g" if "game_state g \<noteq> GAME_STATE_PLAYING" using that by (rule 1)
    show "game_state g2 = game_state g"
      if "game_state g \<noteq> GAME_STATE_PLAYING \<and> run_step mouse_pos evs g = Inr (running, g2)"
      for mouse_pos evs running g2 using that by (rule 4)
  qed (use s in \<open>auto split: if_splits\<close>)
qed

text \<open>
  When the last enemy of the last wave takes the last life, both tests at the end of
  \<^verbatim>\<open>update\<close> fire and the second assignment stays.
\<close>

lemma last_exit_update:
  "update last_exit_demo
     = Inr (last_exit_demo\<lparr>lives := 0, enemies := [], game_state := GAME_STATE_VICTORY\<rparr>)"
  using last_enemy_update [of 50]
  by (simp add: update_def last_exit_demo_def game_facts wm_update_inactive setup_waves_facts
      bind_err_def spawn_def remove_marked_def check_state_eq is_finished_def last_enemy_def)

lemma final_kill_update: "update final_kill_demo = Inr final_kill_demo_1"
  by (simp add: update_def final_kill_demo_def final_kill_demo_1_def kill_demo_def
      kill_demo_1_def game_facts wm_update_inactive
      setup_waves_facts bind_err_def spawn_def weak_enemy_step_1 is_alive_def
      remove_marked_def kill_demo_attack check_state_eq is_finished_def)
     (simp add: weak_enemy_def)

text \<open>
  C4 as stated fails: all waves are over and the attack of this tick kills the only
  enemy, so no live enemy remains, but the dead enemy is still in the list at the check
  and the state stays Playing.
\<close>

theorem victory_waits_for_removal_counterexample:
  "game_state final_kill_demo = GAME_STATE_PLAYING
   \<and> tick final_kill_demo = Inr final_kill_demo_1
   \<and> is_finished (wave_manager final_kill_demo_1)
   \<and> map is_alive (enemies final_kill_demo_1) = [False]
   \<and> game_state final_kill_demo_1 = GAME_STATE_PLAYING"
  using final_kill_update
  by (simp add: tick_def final_kill_demo_def final_kill_demo_1_def kill_demo_def kill_demo_1_def
      game_facts is_finished_def setup_waves_facts is_alive_def weak_enemy_def)

theorem tick_state_transitions_witness:
  "tick final_kill_demo = Inr final_kill_demo_1
   \<and> game_state final_kill_demo = GAME_STATE_PLAYING
   \<and> 0 < lives final_kill_demo_1
   \<and> enemies final_kill_demo_1 \<noteq> []
   \<and> game_state final_kill_demo_1 = GAME_STATE_PLAYING"
proof -
  have t: "tick final_kill_demo = Inr final_kill_demo_1"
    and p: "game_state final_kill_demo = GAME_STATE_PLAYING"
    and l: "0 < lives final_kill_demo_1" "enemies final_kill_demo_1 \<noteq> []"
    using final_kill_update
    by (simp_all add: tick_def final_kill_demo_def final_kill_demo_1_def kill_demo_def
        kill_demo_1_def game_facts)
  from tick_state_transitions [OF t] t p l show ?thesis by simp
qed

section \<open>The money is never negative\<close>

lemma selection_ok_mono: "selection_ok sel n \<Longrightarrow> n \<le> m \<Longrightarrow> selection_ok sel m"
  by (cases sel) simp_all

lemma hit_values: "map enemy_value (es[i := hit d (es ! i)]) = map enemy_value es"
proof (cases "i < length es")
  case True
  have "(map enemy_value es)[i := map enemy_value es ! i] = map enemy_value es"
    by (rule list_update_id)
  with True show ?thesis by (simp add: map_update hit_def)
next
  case False
  then show ?thesis by (simp add: list_update_beyond)
qed

lemma tower_attack_frame:
  "tower_attack t es = (d, t', es') \<Longrightarrow> cost t' = cost t \<and> map enemy_value es' = map enemy_value es"
  by (auto simp: tower_attack_def Let_def hit_values split: if_splits option.splits)

lemma bomb_loop_values: "map enemy_value (snd (bomb_loop t js acc es)) = map enemy_value es"
  by (induction js arbitrary: acc es) (simp_all add: hit_values)

lemma bomber_attack_frame:
  "bomber_attack t es = (d, t', es') \<Longrightarrow> cost t' = cost t \<and> map enemy_value es' = map enemy_value es"
  using bomb_loop_values [of t "enemies_in_range t es" 0 es]
  by (auto simp: bomber_attack_def Let_def split: if_splits prod.splits)

lemma attack_frame:
  "attack t es = (d, t', es') \<Longrightarrow> cost t' = cost t \<and> map enemy_value es' = map enemy_value es"
  by (cases "tower_class t") (simp_all add: attack_def tower_attack_frame bomber_attack_frame)

lemma update_towers_frame:
  "update_towers ts es = (ts', es') \<Longrightarrow>
   map cost ts' = map cost ts \<and> map enemy_value es' = map enemy_value es"
proof (induction ts arbitrary: es ts' es')
  case Nil
  then show ?case by simp
next
  case (Cons t ts)
  obtain d t1 es1 where a: "attack t es = (d, t1, es1)" by (cases "attack t es") auto
  obtain ts2 es2 where r: "update_towers ts es1 = (ts2, es2)" by (cases "update_towers ts es1")
  from Cons.prems a r have "es' = es2" "ts' = t1 # ts2" by simp_all
  with Cons.IH [OF r] attack_frame [OF a] show ?case by simp
qed

lemma bounty_nonneg: "list_all (\<lambda>v. 0 \<le> v) (map enemy_value es) \<Longrightarrow> 0 \<le> bounty es"
  by (auto simp: bounty_def kills_def list_all_iff intro!: sum_list_nonneg)

lemma survivors_values:
  "list_all (\<lambda>v. 0 \<le> v) (map enemy_value es) \<Longrightarrow>
   list_all (\<lambda>v. 0 \<le> v) (map enemy_value (survivors es))"
  by (auto simp: survivors_def list_all_iff moved_value)

lemma create_enemy_value: "create_enemy ty p = Inr e \<Longrightarrow> 0 \<le> enemy_value e"
  by (auto simp: create_enemy_def Enemy_def split: if_splits list.splits)

lemma wm_update_value:
  "wm_update wm p = Inr (wm', Some e) \<Longrightarrow> 0 \<le> enemy_value e"
  using wm_update_spawned [of wm p wm' e] create_enemy_value by blast

lemma update_sound:
  assumes "update g = Inr g'" and "sound g"
  shows "sound g' \<and> money g \<le> money g'"
proof -
  from update_unfold [OF assms(1)] obtain wm new_enemy seen ts es where
    w: "wm_update (wave_manager g) (path g) = Inr (wm, new_enemy)"
    and u: "update_enemies (spawn g new_enemy) (lives g, money g, score g, [])
       = Inr (lives g', money g', score g', seen)"
    and t: "update_towers (towers g) (remove_marked seen) = (ts, es)"
    and g': "g' = check_state (g\<lparr>wave_manager := wm, lives := lives g', money := money g',
           score := score g', towers := ts, enemies := es\<rparr>)"
    by blast
  have sp: "list_all (\<lambda>v. 0 \<le> v) (map enemy_value (spawn g new_enemy))"
    using assms(2) w wm_update_value [of "wave_manager g" "path g" wm]
    by (cases new_enemy) (auto simp: sound_def spawn_def)
  have m: "money g' = money g + bounty (spawn g new_enemy)"
    using update_enemies_totals [OF u] by simp
  have r: "remove_marked seen = survivors (spawn g new_enemy)"
    using update_enemies_survivors [OF u] by (simp add: remove_marked_def)
  note f = update_towers_frame [OF t] update_towers_length [OF t]
  have e: "enemies g' = es" "towers g' = ts" "tower_prototypes g' = tower_prototypes g"
    "selected_tower g' = selected_tower g"
    by (subst g', simp add: check_state_eq)+
  have "list_all (\<lambda>v. 0 \<le> v) (map enemy_value es)"
    using f r survivors_values [OF sp] by simp
  moreover have "list_all (\<lambda>c. 0 \<le> c) (map cost ts)"
    using f assms(2) by (simp add: sound_def)
  moreover have "0 \<le> bounty (spawn g new_enemy)" using sp by (rule bounty_nonneg)
  ultimately show ?thesis
    using assms(2) m e f by (simp add: sound_def split: option.splits)
qed

lemma select_tower_loop_bound:
  "select_tower_loop pos ts k = Some i \<Longrightarrow> k \<le> i \<and> i < k + length ts"
proof (induction ts arbitrary: k)
  case Nil
  then show ?case by simp
next
  case (Cons t ts)
  show ?case
  proof (cases "point_distance (fst pos) (snd pos) (tower_x t) (tower_y t) < 20")
    case True
    with Cons.prems show ?thesis by simp
  next
    case False
    with Cons.prems have "select_tower_loop pos ts (Suc k) = Some i" by simp
    from Cons.IH [OF this] show ?thesis by simp
  qed
qed

lemma select_tower_sound: "sound g \<Longrightarrow> sound (snd (select_tower g pos))"
  using select_tower_loop_bound [of pos "towers g" 0]
  by (auto simp: select_tower_def sound_def split: option.splits)

lemma select_tower_type_sound: "sound g \<Longrightarrow> sound (select_tower_type g ty)"
  by (auto simp: select_tower_type_def sound_def split: option.splits)

lemma number_key_sound: "sound g \<Longrightarrow> sound (number_key g i)"
  by (simp add: number_key_def select_tower_type_sound)

lemma start_wave_sound: "sound g \<Longrightarrow> sound (snd (start_wave g))"
  by (simp add: start_wave_def wm_start_wave_def sound_def)

lemma prototype_cost:
  "sound g \<Longrightarrow> map_of (tower_prototypes g) ty = Some prototype \<Longrightarrow> 0 \<le> cost prototype"
  by (auto simp: sound_def list_all_iff dest!: map_of_SomeD)

lemma place_tower_sound:
  assumes "place_tower g pos = Inr (ok, g')" and "sound g"
  shows "sound g' \<and> (ok \<longrightarrow> money g' \<le> money g)"
proof (cases ok)
  case False
  with place_tower_cases [OF assms(1)] assms(2) show ?thesis by simp
next
  case True
  with place_tower_cases [OF assms(1)] obtain tower_type prototype where
    p: "map_of (tower_prototypes g) tower_type = Some prototype"
    and c: "cost prototype \<le> money g"
    and m: "money g' = money g - cost prototype"
    and t: "towers g' = towers g @ [prototype\<lparr>tower_x := fst (get_grid_position pos),
                                             tower_y := snd (get_grid_position pos)\<rparr>]"
    and g': "g' = g\<lparr>towers := towers g', money := money g'\<rparr>"
    by blast
  have "sound (g\<lparr>towers := towers g', money := money g'\<rparr>)"
    using assms(2) prototype_cost [OF assms(2) p] c m t
      selection_ok_mono [of "selected_tower g" "length (towers g)" "Suc (length (towers g))"]
    by (simp add: sound_def)
  with g' prototype_cost [OF assms(2) p] m show ?thesis by simp
qed

lemma upgrade_cost_kept: "cost (snd (upgrade t)) = cost t"
  by (simp add: upgrade_def Let_def)

lemma upgrade_selected_tower_sound:
  assumes "sound g"
  shows "sound (snd (upgrade_selected_tower g))"
proof (cases "selected_tower g")
  case None
  with assms show ?thesis by (simp add: upgrade_selected_tower_def)
next
  case (Some i)
  with assms have i: "i < length (towers g)" by (simp add: sound_def)
  have "(map cost (towers g))[i := map cost (towers g) ! i] = map cost (towers g)"
    by (rule list_update_id)
  then have "map cost ((towers g)[i := snd (upgrade (towers g ! i))]) = map cost (towers g)"
    using i by (simp add: map_update upgrade_cost_kept)
  with assms Some i show ?thesis
    by (simp add: upgrade_selected_tower_def Let_def sound_def)
qed

lemma py_int_nonneg_result: "0 \<le> r \<Longrightarrow> 0 \<le> py_int r"
  by (simp add: py_int_def)

lemma sell_selected_tower_sound:
  assumes "sell_selected_tower g = Inr (ok, g')" and "sound g"
  shows "sound g' \<and> money g \<le> money g'"
proof (cases "selected_tower g")
  case None
  with assms show ?thesis by (simp add: sell_selected_tower_def)
next
  case (Some i)
  with assms(2) have i: "i < length (towers g)" by (simp add: sound_def)
  then have "towers g ! i \<in> set (towers g)" by simp
  with assms(2) have "0 \<le> cost (towers g ! i)" by (auto simp: sound_def list_all_iff)
  then have v: "0 \<le> py_int (real_of_int (cost (towers g ! i)) * 0.7)"
    by (intro py_int_nonneg_result) simp
  have "set (take i (towers g)) \<subseteq> set (towers g)"
    "set (drop (Suc i) (towers g)) \<subseteq> set (towers g)"
    by (rule set_take_subset, rule set_drop_subset)
  then have "list_all (\<lambda>c. 0 \<le> c) (map cost (take i (towers g) @ drop (Suc i) (towers g)))"
    using assms(2) by (auto simp: sound_def list_all_iff)
  with assms Some i v show ?thesis
    by (auto simp: sell_selected_tower_def Let_def sound_def)
qed

lemma handle_event_key:
  "handle_event mouse_pos (KEYDOWN K_ESCAPE) g
     = Inr (g\<lparr>selected_tower_type := None, selected_tower := None, dragging_tower := None\<rparr>)"
  "handle_event mouse_pos (KEYDOWN K_g) g = Inr (g\<lparr>grid_visible := \<not> grid_visible g\<rparr>)"
  "handle_event mouse_pos (KEYDOWN K_n) g = Inr (snd (start_wave g))"
  "handle_event mouse_pos (KEYDOWN K_u) g = Inr (snd (upgrade_selected_tower g))"
  "handle_event mouse_pos (KEYDOWN K_s) g = bind_err (sell_selected_tower g) (\<lambda>r. Inr (snd r))"
  "handle_event mouse_pos (KEYDOWN K_1) g = Inr (number_key g 0)"
  "handle_event mouse_pos (KEYDOWN K_2) g = Inr (number_key g 1)"
  "handle_event mouse_pos (KEYDOWN K_3) g = Inr (number_key g 2)"
  "handle_event mouse_pos (KEYDOWN K_OTHER) g = Inr g"
  by (simp_all add: handle_event_def)

lemma handle_event_mouse:
  "handle_event mouse_pos (MOUSEBUTTONDOWN b) g =
     (if b = 1
      then (if truthy_type (selected_tower_type g)
            then bind_err (place_tower g mouse_pos) (\<lambda>r. Inr (snd r))
            else Inr (snd (select_tower g mouse_pos)))
      else Inr g)"
  by (simp add: handle_event_def)

lemma handle_event_other:
  "handle_event mouse_pos QUIT g = Inr g" "handle_event mouse_pos OTHER_EVENT g = Inr g"
  by (simp_all add: handle_event_def)

lemma bind_snd_Inr:
  assumes "bind_err m (\<lambda>r. Inr (snd r)) = Inr g'"
  shows "\<exists>ok. m = Inr (ok, g')"
proof (cases m)
  case (Inl err)
  with assms show ?thesis by (simp add: bind_err_def)
next
  case (Inr r)
  with assms have "snd r = g'" by (simp add: bind_err_def)
  then have "r = (fst r, g')" by (cases r) simp
  with Inr show ?thesis by blast
qed

lemma handle_event_sound:
  assumes "handle_event mouse_pos ev g = Inr g'" and "sound g"
  shows "sound g'"
proof (cases ev)
  case (KEYDOWN k)
  show ?thesis
  proof (cases k)
    case K_ESCAPE
    with KEYDOWN assms(1) have "g' = g\<lparr>selected_tower_type := None, selected_tower := None,
        dragging_tower := None\<rparr>"
      by (simp add: handle_event_key)
    with assms(2) show ?thesis by (simp add: sound_def)
  next
    case K_g
    with KEYDOWN assms(1) have "g' = g\<lparr>grid_visible := \<not> grid_visible g\<rparr>"
      by (simp add: handle_event_key)
    with assms(2) show ?thesis by (simp add: sound_def)
  next
    case K_n
    with KEYDOWN assms(1) have "g' = snd (start_wave g)" by (simp add: handle_event_key)
    with assms(2) show ?thesis by (simp add: start_wave_sound)
  next
    case K_u
    with KEYDOWN assms(1) have "g' = snd (upgrade_selected_tower g)"
      by (simp add: handle_event_key)
    with assms(2) show ?thesis by (simp add: upgrade_selected_tower_sound)
  next
    case K_s
    with KEYDOWN assms(1) have "bind_err (sell_selected_tower g) (\<lambda>r. Inr (snd r)) = Inr g'"
      by (simp add: handle_event_key)
    from bind_snd_Inr [OF this] obtain ok where "sell_selected_tower g = Inr (ok, g')" ..
    from sell_selected_tower_sound [OF this assms(2)] show ?thesis by simp
  next
    case K_1
    with KEYDOWN assms(1) have "g' = number_key g 0" by (simp add: handle_event_key)
    with assms(2) show ?thesis by (simp add: number_key_sound)
  next
    case K_2
    with KEYDOWN assms(1) have "g' = number_key g 1" by (simp add: handle_event_key)
    with assms(2) show ?thesis by (simp add: number_key_sound)
  next
    case K_3
    with KEYDOWN assms(1) have "g' = number_key g 2" by (simp add: handle_event_key)
    with assms(2) show ?thesis by (simp add: number_key_sound)
  next
    case K_OTHER
    with KEYDOWN assms show ?thesis by (simp add: handle_event_key)
  qed
next
  case (MOUSEBUTTONDOWN b)
  note m = assms(1) [unfolded MOUSEBUTTONDOWN handle_event_mouse]
  show ?thesis
  proof (cases "b = 1")
    case False
    with m assms(2) show ?thesis by simp
  next
    case True
    show ?thesis
    proof (cases "truthy_type (selected_tower_type g)")
      case False
      with m True have "g' = snd (select_tower g mouse_pos)" by simp
      with assms(2) show ?thesis by (simp add: select_tower_sound)
    next
      case truthy: True
      with m True have "bind_err (place_tower g mouse_pos) (\<lambda>r. Inr (snd r)) = Inr g'"
        by simp
      from bind_snd_Inr [OF this] obtain ok where "place_tower g mouse_pos = Inr (ok, g')" ..
      from place_tower_sound [OF this assms(2)] show ?thesis by simp
    qed
  qed
next
  case QUIT
  with assms show ?thesis by (simp add: handle_event_other)
next
  case OTHER_EVENT
  with assms show ?thesis by (simp add: handle_event_other)
qed

lemma process_events_sound:
  "process_events mouse_pos evs g = Inr (running, g') \<Longrightarrow> sound g \<Longrightarrow> sound g'"
proof (induction evs arbitrary: g)
  case Nil
  then show ?case by (auto simp: sound_def Let_def split: option.splits)
next
  case (Cons ev evs)
  show ?case
  proof (cases "ev = QUIT")
    case True
    with Cons.prems show ?thesis by simp
  next
    case False
    with Cons.prems obtain h where h: "handle_event mouse_pos ev g = Inr h"
      and r: "process_events mouse_pos evs h = Inr (running, g')"
      by (cases "handle_event mouse_pos ev g") auto
    from Cons.IH [OF r handle_event_sound [OF h Cons.prems(2)]] show ?thesis .
  qed
qed

lemma tick_sound: "tick g = Inr g' \<Longrightarrow> sound g \<Longrightarrow> sound g'"
  using update_sound [of g g'] by (auto simp: tick_def split: if_splits)

lemma run_step_sound:
  assumes "run_step mouse_pos evs g = Inr (running, g')" and "sound g"
  shows "sound g'"
proof -
  from assms(1) obtain r g1 where e: "process_events mouse_pos evs g = Inr (r, g1)"
    and t: "tick g1 = Inr g'"
    by (cases "process_events mouse_pos evs g")
       (auto simp: run_step_def bind_err_def split: sum.splits)
  from tick_sound [OF t process_events_sound [OF e assms(2)]] show ?thesis .
qed

lemma sound_start: "sound TowerDefenseGame"
  by (simp add: sound_def TowerDefenseGame_def new_BasicTower_def new_SniperTower_def
      new_BomberTower_def Tower_def)

lemma reachable_sound: "reachable g \<Longrightarrow> sound g"
  by (induction rule: reachable.induct) (auto intro: sound_start run_step_sound)

text \<open>
  C9. In every state the game reaches the money is not negative, and every operation on
  money keeps it so: a placement and an upgrade debit only after the check that the money
  covers the cost, so the balance after them is not negative; a sale and a tick only add
  (70 percent of a non-negative cost, the non-negative bounties).
\<close>

theorem money_never_negative:
  assumes "reachable g"
  shows "0 \<le> money g
       \<and> (\<forall>pos ok g'. place_tower g pos = Inr (ok, g') \<longrightarrow>
             0 \<le> money g' \<and> money g' \<le> money g)
       \<and> 0 \<le> money (snd (upgrade_selected_tower g))
       \<and> (\<forall>ok g'. sell_selected_tower g = Inr (ok, g') \<longrightarrow> money g \<le> money g')
       \<and> (\<forall>g'. update g = Inr g' \<longrightarrow> money g \<le> money g')"
proof -
  have s: "sound g" using assms by (rule reachable_sound)
  have 1: "0 \<le> money g" using s by (simp add: sound_def)
  have 2: "0 \<le> money g' \<and> money g' \<le> money g" if "place_tower g pos = Inr (ok, g')" for pos ok g'
  proof -
    from place_tower_sound [OF that s] have "sound g'" "ok \<longrightarrow> money g' \<le> money g" by simp_all
    moreover from place_tower_cases [OF that] have "\<not> ok \<longrightarrow> g' = g" by simp
    ultimately show ?thesis by (auto simp: sound_def)
  qed
  have 3: "0 \<le> money (snd (upgrade_selected_tower g))"
    using upgrade_selected_tower_sound [OF s] by (simp add: sound_def)
  have 4: "money g \<le> money g'" if "sell_selected_tower g = Inr (ok, g')" for ok g'
    using sell_selected_tower_sound [OF that s] by simp
  have 5: "money g \<le> money g'" if "update g = Inr g'" for g'
    using update_sound [OF that s] by simp
  from 1 2 3 4 5 show ?thesis by blast
qed

lemma first_frame_events:
  "process_events (110, 95) [KEYDOWN K_1, MOUSEBUTTONDOWN 1] TowerDefenseGame
     = Inr (True, first_frame_demo)"
proof -
  have k: "handle_event (110, 95) (KEYDOWN K_1) TowerDefenseGame = Inr demo_selected"
    by (simp add: handle_event_key number_key_def demo_selected_def TowerDefenseGame_def)
  have m: "handle_event (110, 95) (MOUSEBUTTONDOWN 1) demo_selected
      = Inr (demo_selected\<lparr>towers := [new_BasicTower 100 100], money := 150\<rparr>)"
    using demo_place
    by (simp add: handle_event_mouse bind_err_def demo_selected_eq truthy_type_def)
  have "process_events (110, 95) [KEYDOWN K_1, MOUSEBUTTONDOWN 1] TowerDefenseGame
      = process_events (110, 95) []
          (demo_selected\<lparr>towers := [new_BasicTower 100 100], money := 150\<rparr>)"
    by (simp only: process_events.simps k m event.distinct if_False sum.case)
  also have "\<dots> = Inr (True, first_frame_demo)"
    by (simp add: first_frame_demo_def demo_selected_eq get_grid_position_def GRID_SIZE_def
        new_BasicTower_def Tower_def TowerDefenseGame_def)
  finally show ?thesis .
qed

lemma first_frame_tick: "tick first_frame_demo = Inr first_frame_demo"
  by (simp add: tick_def update_def first_frame_demo_def game_facts wm_update_inactive
      setup_waves_facts bind_err_def spawn_def remove_marked_def check_state_eq is_finished_def
      attack_def tower_attack_def can_attack_def find_target_def new_BasicTower_def Tower_def)

lemma first_frame:
  "run_step (110, 95) [KEYDOWN K_1, MOUSEBUTTONDOWN 1] TowerDefenseGame
     = Inr (True, first_frame_demo)"
  by (simp only: run_step_def first_frame_events first_frame_tick bind_err_def sum.case
      prod.case)

theorem money_never_negative_witness:
  "reachable first_frame_demo \<and> money first_frame_demo = 150 \<and> 0 \<le> money first_frame_demo"
proof -
  have r: "reachable first_frame_demo"
    using reachable.start first_frame by (rule reachable.step)
  from money_never_negative [OF r] r show ?thesis
    by (simp add: first_frame_demo_def)
qed

section \<open>The damage of a tower is never negative\<close>

text \<open>
  The hypothesis of the statement about \<^verbatim>\<open>Tower.upgrade\<close> holds for every tower of
  every state the game reaches.
\<close>

lemma armed_frame:
  "towers g' = towers g \<Longrightarrow> tower_prototypes g' = tower_prototypes g \<Longrightarrow> armed g \<Longrightarrow> armed g'"
  by (simp add: armed_def)

lemma tower_attack_damage: "tower_attack t es = (d, t', es') \<Longrightarrow> damage t' = damage t"
  by (auto simp: tower_attack_def Let_def split: if_splits option.splits)

lemma bomber_attack_damage: "bomber_attack t es = (d, t', es') \<Longrightarrow> damage t' = damage t"
  by (auto simp: bomber_attack_def Let_def split: if_splits prod.splits)

lemma attack_damage: "attack t es = (d, t', es') \<Longrightarrow> damage t' = damage t"
  by (cases "tower_class t") (simp_all add: attack_def tower_attack_damage bomber_attack_damage)

lemma update_towers_damage:
  "update_towers ts es = (ts', es') \<Longrightarrow> map damage ts' = map damage ts"
proof (induction ts arbitrary: es ts' es')
  case Nil
  then show ?case by simp
next
  case (Cons t ts)
  obtain d t1 es1 where a: "attack t es = (d, t1, es1)" by (cases "attack t es") auto
  obtain ts2 es2 where r: "update_towers ts es1 = (ts2, es2)" by (cases "update_towers ts es1")
  from Cons.prems a r have "ts' = t1 # ts2" by simp
  with Cons.IH [OF r] attack_damage [OF a] show ?case by simp
qed

lemma update_armed:
  assumes "update g = Inr g'" and "armed g"
  shows "armed g'"
proof -
  from update_unfold [OF assms(1)] obtain wm seen ts es where
    t: "update_towers (towers g) (remove_marked seen) = (ts, es)"
    and g': "g' = check_state (g\<lparr>wave_manager := wm, lives := lives g', money := money g',
           score := score g', towers := ts, enemies := es\<rparr>)"
    by blast
  have "towers g' = ts" "tower_prototypes g' = tower_prototypes g"
    by (subst g', simp add: check_state_eq)+
  with update_towers_damage [OF t] assms(2) show ?thesis by (simp add: armed_def)
qed

lemma upgrade_damage: "0 \<le> damage t \<Longrightarrow> 0 \<le> damage (snd (upgrade t))"
  by (simp add: upgrade_def Let_def py_int_def)

lemma place_tower_armed:
  assumes "place_tower g pos = Inr (ok, g')" and "armed g"
  shows "armed g'"
proof (cases ok)
  case False
  with place_tower_cases [OF assms(1)] assms(2) show ?thesis by simp
next
  case True
  with place_tower_cases [OF assms(1)] obtain tower_type prototype where
    p: "map_of (tower_prototypes g) tower_type = Some prototype"
    and t: "towers g' = towers g @ [prototype\<lparr>tower_x := fst (get_grid_position pos),
                                             tower_y := snd (get_grid_position pos)\<rparr>]"
    and g': "g' = g\<lparr>towers := towers g', money := money g'\<rparr>"
    by blast
  from p have "(tower_type, prototype) \<in> set (tower_prototypes g)" by (rule map_of_SomeD)
  with assms(2) have "0 \<le> damage prototype" by (auto simp: armed_def list_all_iff)
  moreover have "tower_prototypes g' = tower_prototypes g" by (subst g') simp
  ultimately show ?thesis using assms(2) t by (simp add: armed_def)
qed

lemma upgrade_selected_tower_armed:
  assumes "armed g"
  shows "armed (snd (upgrade_selected_tower g))"
proof (cases "selected_tower g")
  case None
  with assms show ?thesis by (simp add: upgrade_selected_tower_def)
next
  case (Some i)
  have "list_all (\<lambda>d. 0 \<le> d) (map damage ((towers g)[i := snd (upgrade (towers g ! i))]))"
  proof (cases "i < length (towers g)")
    case True
    then have "towers g ! i \<in> set (towers g)" by simp
    with assms have "0 \<le> damage (towers g ! i)" by (auto simp: armed_def list_all_iff)
    then have "0 \<le> damage (snd (upgrade (towers g ! i)))" by (rule upgrade_damage)
    moreover have "set ((towers g)[i := snd (upgrade (towers g ! i))])
        \<subseteq> insert (snd (upgrade (towers g ! i))) (set (towers g))"
      by (rule set_update_subset_insert)
    ultimately show ?thesis using assms by (auto simp: armed_def list_all_iff)
  next
    case False
    with assms show ?thesis by (simp add: armed_def list_update_beyond)
  qed
  with assms Some show ?thesis
    by (simp add: upgrade_selected_tower_def Let_def armed_def)
qed

lemma sell_selected_tower_armed:
  assumes "sell_selected_tower g = Inr (ok, g')" and "armed g"
  shows "armed g'"
proof (cases "selected_tower g")
  case None
  with assms show ?thesis by (simp add: sell_selected_tower_def)
next
  case (Some i)
  have "set (take i (towers g)) \<subseteq> set (towers g)"
    "set (drop (Suc i) (towers g)) \<subseteq> set (towers g)"
    by (rule set_take_subset, rule set_drop_subset)
  then have "list_all (\<lambda>d. 0 \<le> d) (map damage (take i (towers g) @ drop (Suc i) (towers g)))"
    using assms(2) by (auto simp: armed_def list_all_iff)
  with assms Some show ?thesis
    by (auto simp: sell_selected_tower_def Let_def armed_def split: if_splits)
qed

lemma handle_event_armed:
  assumes "handle_event mouse_pos ev g = Inr g'" and "armed g"
  shows "armed g'"
proof (cases ev)
  case (KEYDOWN k)
  show ?thesis
  proof (cases k)
    case K_u
    with KEYDOWN assms(1) have "g' = snd (upgrade_selected_tower g)"
      by (simp add: handle_event_key)
    with assms(2) show ?thesis by (simp add: upgrade_selected_tower_armed)
  next
    case K_s
    with KEYDOWN assms(1) have "bind_err (sell_selected_tower g) (\<lambda>r. Inr (snd r)) = Inr g'"
      by (simp add: handle_event_key)
    from bind_snd_Inr [OF this] obtain ok where "sell_selected_tower g = Inr (ok, g')" ..
    from sell_selected_tower_armed [OF this assms(2)] show ?thesis .
  next
    case K_ESCAPE
    with KEYDOWN assms(1) have "towers g' = towers g" "tower_prototypes g' = tower_prototypes g"
      by (auto simp: handle_event_key)
    then show ?thesis using assms(2) by (rule armed_frame)
  next
    case K_g
    with KEYDOWN assms(1) have "towers g' = towers g" "tower_prototypes g' = tower_prototypes g"
      by (auto simp: handle_event_key)
    then show ?thesis using assms(2) by (rule armed_frame)
  next
    case K_n
    with KEYDOWN assms(1) have "towers g' = towers g" "tower_prototypes g' = tower_prototypes g"
      by (auto simp: handle_event_key start_wave_def wm_start_wave_def)
    then show ?thesis using assms(2) by (rule armed_frame)
  next
    case K_1
    with KEYDOWN assms(1) have "towers g' = towers g" "tower_prototypes g' = tower_prototypes g"
      by (auto simp: handle_event_key number_key_def select_tower_type_def split: option.splits)
    then show ?thesis using assms(2) by (rule armed_frame)
  next
    case K_2
    with KEYDOWN assms(1) have "towers g' = towers g" "tower_prototypes g' = tower_prototypes g"
      by (auto simp: handle_event_key number_key_def select_tower_type_def split: option.splits)
    then show ?thesis using assms(2) by (rule armed_frame)
  next
    case K_3
    with KEYDOWN assms(1) have "towers g' = towers g" "tower_prototypes g' = tower_prototypes g"
      by (auto simp: handle_event_key number_key_def select_tower_type_def split: option.splits)
    then show ?thesis using assms(2) by (rule armed_frame)
  next
    case K_OTHER
    with KEYDOWN assms show ?thesis by (simp add: handle_event_key)
  qed
next
  case (MOUSEBUTTONDOWN b)
  note m = assms(1) [unfolded MOUSEBUTTONDOWN handle_event_mouse]
  show ?thesis
  proof (cases "b = 1")
    case False
    with m assms(2) show ?thesis by simp
  next
    case True
    show ?thesis
    proof (cases "truthy_type (selected_tower_type g)")
      case False
      with m True have "g' = snd (select_tower g mouse_pos)" by simp
      then have "towers g' = towers g" "tower_prototypes g' = tower_prototypes g"
        by (auto simp: select_tower_def split: option.splits)
      then show ?thesis using assms(2) by (rule armed_frame)
    next
      case truthy: True
      with m True have "bind_err (place_tower g mouse_pos) (\<lambda>r. Inr (snd r)) = Inr g'"
        by simp
      from bind_snd_Inr [OF this] obtain ok where "place_tower g mouse_pos = Inr (ok, g')" ..
      from place_tower_armed [OF this assms(2)] show ?thesis .
    qed
  qed
next
  case QUIT
  with assms show ?thesis by (simp add: handle_event_other)
next
  case OTHER_EVENT
  with assms show ?thesis by (simp add: handle_event_other)
qed

lemma process_events_armed:
  "process_events mouse_pos evs g = Inr (running, g') \<Longrightarrow> armed g \<Longrightarrow> armed g'"
proof (induction evs arbitrary: g)
  case Nil
  then show ?case by (auto simp: armed_def Let_def split: option.splits)
next
  case (Cons ev evs)
  show ?case
  proof (cases "ev = QUIT")
    case True
    with Cons.prems show ?thesis by simp
  next
    case False
    with Cons.prems obtain h where h: "handle_event mouse_pos ev g = Inr h"
      and r: "process_events mouse_pos evs h = Inr (running, g')"
      by (cases "handle_event mouse_pos ev g") auto
    from Cons.IH [OF r handle_event_armed [OF h Cons.prems(2)]] show ?thesis .
  qed
qed

lemma run_step_armed:
  assumes "run_step mouse_pos evs g = Inr (running, g')" and "armed g"
  shows "armed g'"
proof -
  from assms(1) obtain r g1 where e: "process_events mouse_pos evs g = Inr (r, g1)"
    and t: "tick g1 = Inr g'"
    by (cases "process_events mouse_pos evs g")
       (auto simp: run_step_def bind_err_def split: sum.splits)
  from process_events_armed [OF e assms(2)] have "armed g1" .
  with t update_armed [of g1 g'] show ?thesis by (auto simp: tick_def split: if_splits)
qed

lemma armed_start: "armed TowerDefenseGame"
  by (simp add: armed_def TowerDefenseGame_def new_BasicTower_def new_SniperTower_def
      new_BomberTower_def Tower_def)

lemma reachable_armed: "reachable g \<Longrightarrow> armed g"
  by (induction rule: reachable.induct) (auto intro: armed_start run_step_armed)

lemma reachable_tower_damage: "reachable g \<Longrightarrow> t \<in> set (towers g) \<Longrightarrow> 0 \<le> damage t"
  using reachable_armed [of g] by (auto simp: armed_def list_all_iff)

end
